theory Spec2Isabelle
  imports Complex_Main "HOL-Library.Monad_Syntax"
begin

section \<open>Conventions\<close>

text \<open>
  A shallow embedding of the supereight2 sources the claims cite. The conventions:
  \<^item> \<open>float\<close> and \<open>double\<close> values (\<open>field_t\<close>, \<open>weight_t\<close>) are modelled by \<open>real\<close>: the
    embedding is exact arithmetic, rounding and NaN are outside it;
  \<^item> \<open>int\<close> and \<open>size_t\<close> values are modelled by \<open>int\<close>, with the wrap-around of \<open>size_t\<close>
    written out where the source compares in \<open>size_t\<close>;
  \<^item> a function whose C++ counterpart can abort on a failed \<open>assert\<close> or run into undefined
    behaviour (index out of range, null dereference, shift by a negative count, double
    \<open>delete[]\<close>) returns an \<open>option\<close>, \<open>None\<close> standing for that outcome;
  \<^item> pointers are addresses of type \<open>nat\<close>, \<open>0\<close> being \<open>nullptr\<close>.
\<close>

type_synonym addr = nat

type_synonym vec3i = "int \<times> int \<times> int"


section \<open>Arithmetic helpers of \<open>se::math\<close>\<close>

text \<open>
  Modelled from the spec: \<open>math::clamp\<close>, \<open>math::sq\<close> and \<open>math::cu\<close> live in the math utilities
  header, which is not among the sources; they are the clamp to a closed interval, the square
  and the cube.
\<close>

definition clamp :: "real \<Rightarrow> real \<Rightarrow> real \<Rightarrow> real" where
  "clamp x lo hi = max lo (min x hi)"

definition sq :: "int \<Rightarrow> int" where
  "sq x = x * x"

definition cu :: "int \<Rightarrow> int" where
  "cu x = x * x * x"

text \<open>\<open>1 << s\<close> on a 32-bit \<open>int\<close>: defined for \<open>0 \<le> s < 31\<close>.\<close>

definition shl1 :: "int \<Rightarrow> int option" where
  "shl1 s = (if 0 \<le> s \<and> s < 31 then Some (2 ^ nat s) else None)"

text \<open>\<open>x >> s\<close> on a non-negative 32-bit \<open>int\<close>: defined for \<open>0 \<le> s < 32\<close>.\<close>

definition shr :: "int \<Rightarrow> int \<Rightarrow> int option" where
  "shr x s = (if 0 \<le> x \<and> 0 \<le> s \<and> s < 32 then Some (x div 2 ^ nat s) else None)"

text \<open>C++ integer division truncates toward zero.\<close>

definition tdiv :: "int \<Rightarrow> int \<Rightarrow> int" where
  "tdiv a b = sgn a * sgn b * (\<bar>a\<bar> div \<bar>b\<bar>)"

text \<open>Conversion of an \<open>int\<close> to the 64-bit \<open>size_t\<close>.\<close>

definition size_t_of :: "int \<Rightarrow> int" where
  "size_t_of x = x mod 2 ^ 64"

text \<open>\<open>std::vector::operator[]\<close> and array indexing with an \<open>int\<close> index.\<close>

definition vec_at :: "'a list \<Rightarrow> int \<Rightarrow> 'a option" where
  "vec_at xs i = (if 0 \<le> i \<and> i < int (length xs) then Some (xs ! nat i) else None)"

text \<open>\<open>std::vector::pop_back\<close>.\<close>

definition pop_back :: "'a list \<Rightarrow> 'a list option" where
  "pop_back xs = (if xs = [] then None else Some (butlast xs))"


section \<open>Multi-resolution TSDF updater (\<open>unnamed/part_000\<close>)\<close>

record tsdf_data =
  tsdf :: real
  weight :: real

record prop_data =
  delta_tsdf :: real
  delta_weight :: int

text \<open>
  \<open>BlockType::DataUnion\<close>, declared in the block header, which is not among the sources: the
  members \<open>updateVoxel\<close> reads and writes, the voxel's data and its propagation data.
\<close>

record data_union =
  data :: tsdf_data
  prop_data :: prop_data

text \<open>
  \<open>Updater::updateVoxel\<close> (part_000, lines 201-214). \<open>max_weight\<close> is
  \<open>map_.getDataConfig().max_weight\<close>.
\<close>

definition updateVoxel :: "real \<Rightarrow> data_union \<Rightarrow> real \<Rightarrow> real \<Rightarrow> data_union" where
  "updateVoxel max_weight data_union sdf_value truncation_boundary =
     (if sdf_value > - truncation_boundary then
        let tsdf_value = min 1 (sdf_value / truncation_boundary);
            d = data data_union;
            t1 = (tsdf d * tsdf_data.weight d + tsdf_value) / (tsdf_data.weight d + 1);
            t2 = clamp t1 (- 1) 1;
            w = min (tsdf_data.weight d + 1) max_weight;
            p = prop_data data_union
        in data_union\<lparr>data := d\<lparr>tsdf := t2, tsdf_data.weight := w\<rparr>,
                       prop_data := p\<lparr>delta_weight := delta_weight p + 1\<rparr>\<rparr>
      else data_union)"


section \<open>Occupancy voxel update (\<open>unnamed/part_003\<close>)\<close>

text \<open>The occupancy field of a voxel, \<open>data.field\<close> in the source.\<close>

record occ_data =
  occupancy :: real
  weight :: real
  observed :: bool

text \<open>\<open>config.field\<close>: the members the integrator reads.\<close>

record field_config =
  log_odd_min :: real
  log_odd_max :: real
  max_weight :: real

text \<open>
  The sample chosen by the branches of \<open>ray_integrator::update_voxel\<close> (part_003, lines 22-39):
  \<open>No_sample\<close> is the branch that returns \<open>false\<close> without touching the data. The two
  divisions are divisions of \<open>float\<close>: by zero they give an infinity or a NaN, which is no real
  number, and the sample is \<open>Division_by_zero\<close>.
\<close>

datatype sample = Sample real | No_sample | Division_by_zero

definition sample_value :: "field_config \<Rightarrow> real \<Rightarrow> real \<Rightarrow> real \<Rightarrow> sample" where
  "sample_value config range_diff tau three_sigma =
     (if range_diff < - three_sigma then Sample (log_odd_min config)
      else if range_diff < tau / 2 then
        (if three_sigma = 0 then Division_by_zero
         else Sample (min (log_odd_min config
                             - log_odd_min config / three_sigma * (range_diff + three_sigma))
                          (log_odd_max config)))
      else if range_diff < tau then
        (if 2 * three_sigma = 0 then Division_by_zero
         else Sample (min (- log_odd_min config * tau / (2 * three_sigma)) (log_odd_max config)))
      else No_sample)"

text \<open>
  \<open>ray_integrator::update_voxel\<close> (part_003, lines 15-44). \<open>data.field.update\<close> is a member of
  the field data type, declared outside the sources: it is the parameter \<open>field_update\<close>,
  taking the sample and the maximum weight. The result is the data and the returned flag, and
  \<open>None\<close> where the sample is no real number.
\<close>

definition update_voxel ::
  "(real \<Rightarrow> real \<Rightarrow> occ_data \<Rightarrow> occ_data) \<Rightarrow> field_config \<Rightarrow> occ_data \<Rightarrow> real \<Rightarrow> real \<Rightarrow> real
     \<Rightarrow> (occ_data \<times> bool) option" where
  "update_voxel field_update config dat range_diff tau three_sigma =
     (case sample_value config range_diff tau three_sigma of
        No_sample \<Rightarrow> Some (dat, False)
      | Division_by_zero \<Rightarrow> None
      | Sample s \<Rightarrow>
          (let newly_observed = \<not> observed dat
           in Some (field_update s (max_weight config) dat, newly_observed)))"

text \<open>\<open>ray_integrator::free_voxel\<close> (part_003, lines 47-53).\<close>

definition free_voxel ::
  "(real \<Rightarrow> real \<Rightarrow> occ_data \<Rightarrow> occ_data) \<Rightarrow> field_config \<Rightarrow> occ_data \<Rightarrow> occ_data \<times> bool" where
  "free_voxel field_update config voxel_data =
     (let newly_observed = \<not> observed voxel_data
      in (field_update (log_odd_min config) (max_weight config) voxel_data, newly_observed))"


section \<open>Multi-resolution TSDF block (\<open>unnamed/part_009\<close>)\<close>

text \<open>
  The multi-resolution TSDF block (part_009, lines 69-202): one flat array holding the scales
  one after the other. \<open>size_at_scales_\<close> and \<open>scale_offsets_\<close> are constant tables of the block
  header, which is not among the sources: they are fields of the record.
\<close>

record tsdf_block =
  coord :: vec3i
  max_scale :: int
  current_scale :: int
  block_data :: "tsdf_data list"
  size_at_scales :: "int list"
  scale_offsets :: "int list"

text \<open>Componentwise difference and truncating division of \<open>Eigen::Vector3i\<close>.\<close>

definition vsub :: "vec3i \<Rightarrow> vec3i \<Rightarrow> vec3i" where
  "vsub a b = (case a of (ax, ay, az) \<Rightarrow> case b of (bx, by, bz) \<Rightarrow> (ax - bx, ay - by, az - bz))"

definition vdiv :: "vec3i \<Rightarrow> int \<Rightarrow> vec3i" where
  "vdiv a k = (case a of (ax, ay, az) \<Rightarrow> (tdiv ax k, tdiv ay k, tdiv az k))"

text \<open>\<open>BlockMultiRes<TSDF>::getVoxelIdx\<close> (part_009, lines 80-91).\<close>

definition BlockTSDF_getVoxelIdx :: "tsdf_block \<Rightarrow> vec3i \<Rightarrow> int \<Rightarrow> int option" where
  "BlockTSDF_getVoxelIdx b voxel_coord scale =
     (if \<not> 0 \<le> scale \<or> \<not> scale \<le> tsdf_block.max_scale b then None
      else do {
        stride \<leftarrow> shl1 scale;
        size_at_scale \<leftarrow> vec_at (size_at_scales b) scale;
        offset \<leftarrow> vec_at (scale_offsets b) scale;
        (case vdiv (vsub voxel_coord (tsdf_block.coord b)) stride of
           (x, y, z) \<Rightarrow> Some (offset + x + y * size_at_scale + z * sq size_at_scale))
      })"

text \<open>\<open>BlockMultiRes<TSDF>::data(voxel_idx)\<close> (part_009, lines 95-112).\<close>

definition BlockTSDF_data_idx :: "tsdf_block \<Rightarrow> int \<Rightarrow> tsdf_data option" where
  "BlockTSDF_data_idx b voxel_idx =
     (if \<not> 0 \<le> voxel_idx \<or> \<not> voxel_idx < int (length (tsdf_block.block_data b)) then None
      else Some (tsdf_block.block_data b ! nat voxel_idx))"

text \<open>
  \<open>BlockMultiRes<TSDF>::data(voxel_coord, scale_desired, scale_returned)\<close> (part_009, lines
  137-159); the scale written to \<open>scale_returned\<close> is the second component of the result.
\<close>

definition BlockTSDF_data :: "tsdf_block \<Rightarrow> vec3i \<Rightarrow> int \<Rightarrow> (tsdf_data \<times> int) option" where
  "BlockTSDF_data b voxel_coord scale_desired =
     (let scale_returned = max scale_desired (tsdf_block.current_scale b) in
      do {
        idx \<leftarrow> BlockTSDF_getVoxelIdx b voxel_coord scale_returned;
        d \<leftarrow> BlockTSDF_data_idx b idx;
        Some (d, scale_returned)
      })"

text \<open>\<open>BlockMultiRes<TSDF>::data(voxel_coord, scale)\<close> (part_009, lines 163-181).\<close>

definition BlockTSDF_data_at_scale :: "tsdf_block \<Rightarrow> vec3i \<Rightarrow> int \<Rightarrow> tsdf_data option" where
  "BlockTSDF_data_at_scale b voxel_coord scale =
     do {
       idx \<leftarrow> BlockTSDF_getVoxelIdx b voxel_coord scale;
       BlockTSDF_data_idx b idx
     }"


section \<open>Multi-resolution occupancy block (\<open>unnamed/part_009\<close>)\<close>

text \<open>
  The arrays an occupancy block allocates with \<open>new DataType[n]\<close>: a store from addresses to
  arrays, with the next address to hand out.
\<close>

record heap =
  cells :: "addr \<Rightarrow> occ_data list option"
  brk :: addr

text \<open>
  Modelled from the spec: the value of a default-constructed \<open>DataType\<close>, whose declaration is
  not among the sources (no weight, not observed). No property below depends on it.
\<close>

definition DataType_init :: occ_data where
  "DataType_init = \<lparr>occupancy = 0, weight = 0, observed = False\<rparr>"

text \<open>\<open>new DataType[n]\<close>.\<close>

definition new_array :: "int \<Rightarrow> heap \<Rightarrow> (addr \<times> heap) option" where
  "new_array n h =
     (if n < 0 \<or> brk h = 0 then None
      else Some (brk h, h\<lparr>cells := (cells h)(brk h \<mapsto> replicate (nat n) DataType_init),
                           brk := Suc (brk h)\<rparr>))"

text \<open>\<open>delete[]\<close>: a no-op on \<open>nullptr\<close>, undefined on an array that is not allocated.\<close>

definition heap_free :: "heap \<Rightarrow> addr \<Rightarrow> heap" where
  "heap_free h a = h\<lparr>cells := (cells h)(a := None)\<rparr>"

definition delete_array :: "addr \<Rightarrow> heap \<Rightarrow> heap option" where
  "delete_array a h =
     (if a = 0 then Some h
      else if cells h a = None then None
      else Some (heap_free h a))"

text \<open>Writing an array back after one of its elements was assigned.\<close>

definition heap_store :: "heap \<Rightarrow> addr \<Rightarrow> occ_data list \<Rightarrow> heap" where
  "heap_store h a arr = h\<lparr>cells := (cells h)(a \<mapsto> arr)\<rparr>"

text \<open>Reading the array behind a pointer.\<close>

definition deref :: "heap \<Rightarrow> addr \<Rightarrow> occ_data list option" where
  "deref h a = (if a = 0 then None else cells h a)"

text \<open>
  The multi-resolution occupancy block (part_009, lines 206-877). \<open>BlockSize\<close> and \<open>max_scale\<close>
  are compile-time constants of the class. The three pyramids are vectors of array pointers,
  indexed by \<open>max_scale - scale\<close>; the members lose their trailing underscore.
\<close>

record occ_block =
  coord :: vec3i
  BlockSize :: int
  max_scale :: int
  current_scale :: int
  min_scale :: int
  block_data :: "addr list"
  block_min_data :: "addr list"
  block_max_data :: "addr list"
  curr_data :: addr
  buffer_data :: addr
  buffer_scale :: int
  curr_integr_count :: int
  curr_observed_count :: int
  buffer_integr_count :: int
  buffer_observed_count :: int
  init_data :: occ_data

text \<open>\<open>BlockMultiRes<Occupancy>::getVoxelIdx\<close> (part_009, lines 258-269).\<close>

definition BlockOcc_getVoxelIdx :: "occ_block \<Rightarrow> vec3i \<Rightarrow> int \<Rightarrow> int option" where
  "BlockOcc_getVoxelIdx b voxel_coord scale =
     (if \<not> 0 \<le> scale \<or> \<not> scale \<le> max_scale b then None
      else do {
        stride \<leftarrow> shl1 scale;
        size_at_scale \<leftarrow> shr (BlockSize b) scale;
        (case vdiv (vsub voxel_coord (coord b)) stride of
           (x, y, z) \<Rightarrow> Some (x + y * size_at_scale + z * sq size_at_scale))
      })"

text \<open>
  \<open>BlockMultiRes<Occupancy>::data(voxel_coord, scale_in, scale_out)\<close> (part_009, lines 297-319).
\<close>

definition BlockOcc_data :: "occ_block \<Rightarrow> heap \<Rightarrow> vec3i \<Rightarrow> int \<Rightarrow> (occ_data \<times> int) option" where
  "BlockOcc_data b h voxel_coord scale_in =
     (let scale_out = max scale_in (current_scale b) in
      do {
        a \<leftarrow> vec_at (block_data b) (max_scale b - scale_out);
        idx \<leftarrow> BlockOcc_getVoxelIdx b voxel_coord scale_out;
        arr \<leftarrow> deref h a;
        d \<leftarrow> vec_at arr idx;
        Some (d, scale_out)
      })"

text \<open>
  \<open>BlockMultiRes<Occupancy>::data(voxel_coord, scale)\<close> (part_009, lines 325-361). The test
  compares in \<open>size_t\<close>.
\<close>

definition BlockOcc_data_at_scale :: "occ_block \<Rightarrow> heap \<Rightarrow> vec3i \<Rightarrow> int \<Rightarrow> occ_data option" where
  "BlockOcc_data_at_scale b h voxel_coord scale =
     (if size_t_of (max_scale b - (int (length (block_data b)) - 1)) > size_t_of scale
      then Some (init_data b)
      else do {
        stride \<leftarrow> shl1 scale;
        size_at_scale \<leftarrow> shr (BlockSize b) scale;
        a \<leftarrow> vec_at (block_data b) (max_scale b - scale);
        arr \<leftarrow> deref h a;
        (case vdiv (vsub voxel_coord (coord b)) stride of
           (x, y, z) \<Rightarrow> vec_at arr (x + y * size_at_scale + z * sq size_at_scale))
      })"

text \<open>\<open>BlockMultiRes<Occupancy>::maxData(voxel_coord, scale)\<close> (part_009, lines 499-537).\<close>

definition BlockOcc_maxData_at_scale :: "occ_block \<Rightarrow> heap \<Rightarrow> vec3i \<Rightarrow> int \<Rightarrow> occ_data option" where
  "BlockOcc_maxData_at_scale b h voxel_coord scale =
     (if size_t_of (max_scale b - (int (length (block_data b)) - 1)) > size_t_of scale
      then Some (init_data b)
      else do {
        stride \<leftarrow> shl1 scale;
        size_at_scale \<leftarrow> shr (BlockSize b) scale;
        a \<leftarrow> vec_at (block_max_data b) (max_scale b - scale);
        arr \<leftarrow> deref h a;
        (case vdiv (vsub voxel_coord (coord b)) stride of
           (x, y, z) \<Rightarrow> vec_at arr (x + y * size_at_scale + z * sq size_at_scale))
      })"

text \<open>
  \<open>incrBufferIntegrCount\<close> (part_009, lines 688-697). \<open>||\<close> evaluates its right operand only
  when \<open>do_increment\<close> is false.
\<close>

definition incrBufferIntegrCount :: "bool \<Rightarrow> occ_block \<Rightarrow> occ_block option" where
  "incrBufferIntegrCount do_increment b =
     (if do_increment then Some (b\<lparr>buffer_integr_count := buffer_integr_count b + 1\<rparr>)
      else do {
        sb \<leftarrow> shl1 (buffer_scale b);
        sc \<leftarrow> shl1 (current_scale b);
        Some (if real_of_int (buffer_observed_count b * cu sb)
                   \<ge> 0.90 * real_of_int (curr_observed_count b) * real_of_int (cu sc)
              then b\<lparr>buffer_integr_count := buffer_integr_count b + 1\<rparr>
              else b)
      })"

text \<open>\<open>resetBufferCount\<close> (part_009, lines 712-717).\<close>

definition resetBufferCount :: "occ_block \<Rightarrow> occ_block" where
  "resetBufferCount b = b\<lparr>buffer_integr_count := 0, buffer_observed_count := 0\<rparr>"

text \<open>
  \<open>deleteUpTo\<close> (part_009, lines 602-649): first its \<open>for\<close> loop over the scales
  \<open>scale, ..., new_min_scale - 1\<close>, then the function.
\<close>

function deleteUpTo_loop :: "int \<Rightarrow> int \<Rightarrow> occ_block \<Rightarrow> heap \<Rightarrow> (occ_block \<times> heap) option" where
  "deleteUpTo_loop scale new_min_scale b h =
     (if scale < new_min_scale then
        do {
          data_at_scale \<leftarrow> vec_at (block_data b) (max_scale b - scale);
          h1 \<leftarrow> delete_array data_at_scale h;
          bd \<leftarrow> pop_back (block_data b);
          min_data_at_scale \<leftarrow> vec_at (block_min_data b) (max_scale b - scale);
          h2 \<leftarrow> delete_array min_data_at_scale h1;
          bmin \<leftarrow> pop_back (block_min_data b);
          max_data_at_scale \<leftarrow> vec_at (block_max_data b) (max_scale b - scale);
          h3 \<leftarrow> delete_array max_data_at_scale h2;
          bmax \<leftarrow> pop_back (block_max_data b);
          deleteUpTo_loop (scale + 1) new_min_scale
            (b\<lparr>block_data := bd, block_min_data := bmin, block_max_data := bmax\<rparr>) h3
        }
      else Some (b, h))"
  by pat_completeness auto
termination
  by (relation "measure (\<lambda>(scale, new_min_scale, b, h). nat (new_min_scale - scale))") auto

definition deleteUpTo :: "int \<Rightarrow> occ_block \<Rightarrow> heap \<Rightarrow> (occ_block \<times> heap) option" where
  "deleteUpTo new_min_scale b h =
     (if \<not> 0 \<le> new_min_scale \<or> \<not> new_min_scale \<le> max_scale b then None
      else if min_scale b = - 1 \<or> min_scale b \<ge> new_min_scale then Some (b, h)
      else do {
        data_at_scale \<leftarrow> vec_at (block_data b) (max_scale b - min_scale b);
        h1 \<leftarrow> delete_array data_at_scale h;
        bd \<leftarrow> pop_back (block_data b);
        bmin \<leftarrow> pop_back (block_min_data b);
        bmax \<leftarrow> pop_back (block_max_data b);
        (b2, h2) \<leftarrow> deleteUpTo_loop (min_scale b + 1) new_min_scale
                      (b\<lparr>block_data := bd, block_min_data := bmin, block_max_data := bmax\<rparr>) h1;
        min_data_at_scale \<leftarrow> vec_at (block_min_data b2) (max_scale b2 - new_min_scale);
        h3 \<leftarrow> delete_array min_data_at_scale h2;
        bmin3 \<leftarrow> pop_back (block_min_data b2);
        d3 \<leftarrow> vec_at (block_data b2) (max_scale b2 - new_min_scale);
        max_data_at_scale \<leftarrow> vec_at (block_max_data b2) (max_scale b2 - new_min_scale);
        h4 \<leftarrow> delete_array max_data_at_scale h3;
        bmax4 \<leftarrow> pop_back (block_max_data b2);
        d4 \<leftarrow> vec_at (block_data b2) (max_scale b2 - new_min_scale);
        Some (b2\<lparr>block_min_data := bmin3 @ [d3], block_max_data := bmax4 @ [d4],
                   min_scale := new_min_scale\<rparr>, h4)
      })"

text \<open>Assignment to a vector element.\<close>

definition vec_set :: "'a list \<Rightarrow> int \<Rightarrow> 'a \<Rightarrow> 'a list option" where
  "vec_set xs i v = (if 0 \<le> i \<and> i < int (length xs) then Some (xs[nat i := v]) else None)"

text \<open>The loop of \<open>switchData\<close> over the buffer voxels \<open>voxel_idx, ..., voxel_idx + k - 1\<close>.\<close>

fun mark_observed_loop ::
  "nat \<Rightarrow> int \<Rightarrow> addr \<Rightarrow> heap \<Rightarrow> int \<Rightarrow> (heap \<times> int) option" where
  "mark_observed_loop 0 voxel_idx buf h cnt = Some (h, cnt)"
| "mark_observed_loop (Suc k) voxel_idx buf h cnt =
     do {
       arr \<leftarrow> deref h buf;
       d \<leftarrow> vec_at arr voxel_idx;
       (if weight d > 0 \<and> \<not> observed d
        then mark_observed_loop k (voxel_idx + 1) buf
               (heap_store h buf (arr[nat voxel_idx := d\<lparr>observed := True\<rparr>]))
               (cnt + 1)
        else mark_observed_loop k (voxel_idx + 1) buf h cnt)
     }"

text \<open>
  \<open>switchData\<close> (part_009, lines 755-806), in its three phases: the switch to a finer scale
  (lines 764-774), the observed-state update with the final assignments (lines 780-803), and
  the function itself with the ratification test and the choice of the branch.
\<close>

definition switchData_grow :: "occ_block \<Rightarrow> heap \<Rightarrow> (occ_block \<times> heap) option" where
  "switchData_grow b h =
     do {
       let bd = block_data b @ [buffer_data b];
       let bmin = block_min_data b @ [buffer_data b];
       let bmax = block_max_data b @ [buffer_data b];
       size_at_scale \<leftarrow> shr (BlockSize b) (buffer_scale b + 1);
       let num_voxels_at_scale = cu size_at_scale;
       (pmin, h1) \<leftarrow> new_array num_voxels_at_scale h;
       bmin1 \<leftarrow> vec_set bmin (max_scale b - (buffer_scale b + 1)) pmin;
       (pmax, h2) \<leftarrow> new_array num_voxels_at_scale h1;
       bmax1 \<leftarrow> vec_set bmax (max_scale b - (buffer_scale b + 1)) pmax;
       Some (b\<lparr>block_data := bd, block_min_data := bmin1, block_max_data := bmax1\<rparr>, h2)
     }"

definition switchData_commit :: "occ_block \<Rightarrow> heap \<Rightarrow> (bool \<times> occ_block \<times> heap) option" where
  "switchData_commit b h =
     do {
       size_at_buffer_scale \<leftarrow> shr (BlockSize b) (buffer_scale b);
       let num_voxels_at_buffer_scale = cu size_at_buffer_scale;
       (h2, cnt) \<leftarrow> mark_observed_loop (nat num_voxels_at_buffer_scale) 0 (buffer_data b) h
                      (buffer_observed_count b);
       let b2 = b\<lparr>buffer_observed_count := cnt\<rparr>;
       let b3 = b2\<lparr>current_scale := buffer_scale b2, min_scale := buffer_scale b2\<rparr>;
       let b4 = b3\<lparr>curr_data := buffer_data b3,
                   curr_integr_count := buffer_integr_count b3,
                   curr_observed_count := buffer_observed_count b3\<rparr>;
       let b5 = b4\<lparr>buffer_data := 0, buffer_scale := - 1\<rparr>;
       Some (True, resetBufferCount b5, h2)
     }"

definition switchData :: "occ_block \<Rightarrow> heap \<Rightarrow> (bool \<times> occ_block \<times> heap) option" where
  "switchData b h =
     do {
       ratify \<leftarrow>
         (if buffer_integr_count b \<ge> 20 then
            do {
              sb \<leftarrow> shl1 (buffer_scale b);
              sc \<leftarrow> shl1 (current_scale b);
              Some (real_of_int (buffer_observed_count b * cu sb)
                      \<ge> 0.9 * real_of_int (curr_observed_count b) * real_of_int (cu sc))
            }
          else Some False);
       (if ratify then
          do {
            (b1, h1) \<leftarrow> (if buffer_scale b < current_scale b then switchData_grow b h
                          else deleteUpTo (buffer_scale b) b h);
            switchData_commit b1 h1
          }
        else Some (False, b, h))
     }"

section \<open>Specification vocabulary for the blocks\<close>

text \<open>What the marking loop of \<open>switchData\<close> does to one voxel.\<close>

definition unobserved_weighted :: "occ_data \<Rightarrow> bool" where
  "unobserved_weighted d = (weight d > 0 \<and> \<not> observed d)"

definition mark_voxel :: "occ_data \<Rightarrow> occ_data" where
  "mark_voxel d = (if unobserved_weighted d then d\<lparr>observed := True\<rparr> else d)"

text \<open>The arrays a block owns: the mean pyramid and the min and max pyramids without their last
  entry, which is shared with the mean pyramid.\<close>

definition arrays_of :: "occ_block \<Rightarrow> addr list" where
  "arrays_of b = block_data b @ butlast (block_min_data b) @ butlast (block_max_data b)"

definition block_wf :: "occ_block \<Rightarrow> heap \<Rightarrow> bool" where
  "block_wf b h \<longleftrightarrow>
     0 \<le> min_scale b \<and> min_scale b \<le> current_scale b \<and> current_scale b \<le> max_scale b
     \<and> max_scale b < 31 \<and> BlockSize b = 2 ^ nat (max_scale b)
     \<and> int (length (block_data b)) = max_scale b - min_scale b + 1
     \<and> length (block_min_data b) = length (block_data b)
     \<and> length (block_max_data b) = length (block_data b)
     \<and> last (block_min_data b) = last (block_data b)
     \<and> last (block_max_data b) = last (block_data b)
     \<and> distinct (arrays_of b)
     \<and> (\<forall>a \<in> set (arrays_of b). a \<noteq> 0 \<and> a < brk h \<and> cells h a \<noteq> None)
     \<and> (\<forall>i < length (block_data b).
           \<exists>arr. cells h (block_data b ! i) = Some arr \<and> int (length arr) = cu (2 ^ i))"

definition buffer_wf :: "occ_block \<Rightarrow> heap \<Rightarrow> bool" where
  "buffer_wf b h \<longleftrightarrow>
     0 \<le> buffer_scale b \<and> buffer_scale b \<le> max_scale b
     \<and> (if buffer_scale b < current_scale b
         then min_scale b - 2 \<le> buffer_scale b
              \<and> buffer_data b \<noteq> 0 \<and> buffer_data b < brk h
              \<and> buffer_data b \<notin> set (arrays_of b)
              \<and> (\<exists>arr. cells h (buffer_data b) = Some arr
                     \<and> int (length arr) = cu (2 ^ nat (max_scale b - buffer_scale b)))
         else vec_at (block_data b) (max_scale b - buffer_scale b) = Some (buffer_data b))"

definition observed_volume_condition :: "occ_block \<Rightarrow> bool" where
  "observed_volume_condition b \<longleftrightarrow>
     real_of_int (buffer_observed_count b * (2 ^ nat (buffer_scale b)) ^ 3)
       \<ge> 0.9 * real_of_int (curr_observed_count b * (2 ^ nat (current_scale b)) ^ 3)"

definition ratification_condition :: "occ_block \<Rightarrow> bool" where
  "ratification_condition b \<longleftrightarrow>
     buffer_integr_count b \<ge> 20 \<and> observed_volume_condition b"

text \<open>\<open>n\<close> successive calls of a block operation, stopping at the first that fails.\<close>

fun repeat_call :: "nat \<Rightarrow> ('s \<Rightarrow> 's option) \<Rightarrow> 's \<Rightarrow> 's option" where
  "repeat_call 0 f s = Some s"
| "repeat_call (Suc n) f s = f s \<bind> repeat_call n f"

text \<open>A voxel of the block: \<open>coord \<le> voxel_coord < coord + BlockSize\<close> on every axis.\<close>

definition inside_block :: "vec3i \<Rightarrow> int \<Rightarrow> vec3i \<Rightarrow> bool" where
  "inside_block c sz v =
     (case c of (cx, cy, cz) \<Rightarrow> case v of (vx, vy, vz) \<Rightarrow>
        cx \<le> vx \<and> vx < cx + sz \<and> cy \<le> vy \<and> vy < cy + sz \<and> cz \<le> vz \<and> vz < cz + sz)"

text \<open>
  A well-formed TSDF block: the block side is \<open>2 ^ max_scale\<close>, and for every scale the tables
  give the side \<open>BlockSize >> scale\<close> and an offset at which the whole scale fits in the array.
\<close>

definition tsdf_block_wf :: "tsdf_block \<Rightarrow> bool" where
  "tsdf_block_wf b \<longleftrightarrow>
     0 \<le> tsdf_block.current_scale b \<and> tsdf_block.current_scale b \<le> tsdf_block.max_scale b
     \<and> tsdf_block.max_scale b < 31
     \<and> (\<forall>s. 0 \<le> s \<and> s \<le> tsdf_block.max_scale b \<longrightarrow>
           (\<exists>off. vec_at (size_at_scales b) s = Some (2 ^ nat (tsdf_block.max_scale b - s))
                \<and> vec_at (scale_offsets b) s = Some off \<and> 0 \<le> off
                \<and> off + cu (2 ^ nat (tsdf_block.max_scale b - s))
                      \<le> int (length (tsdf_block.block_data b))))"

text \<open>
  Where the spec keeps the datum of a voxel at a scale: the offset of the voxel in the block,
  in cells of side \<open>2 ^ scale\<close>, is linearised with the x axis running fastest. The TSDF block
  keeps it in its one array, from the offset of the scale; the occupancy block keeps it in
  the array of the scale, which is entry \<open>max_scale - scale\<close> of the pyramid.
\<close>

definition voxel_offset :: "vec3i \<Rightarrow> vec3i \<Rightarrow> int \<Rightarrow> vec3i" where
  "voxel_offset c v s =
     (case c of (cx, cy, cz) \<Rightarrow> case v of (vx, vy, vz) \<Rightarrow>
        ((vx - cx) div 2 ^ nat s, (vy - cy) div 2 ^ nat s, (vz - cz) div 2 ^ nat s))"

definition linear_index :: "vec3i \<Rightarrow> int \<Rightarrow> int" where
  "linear_index off n = (case off of (x, y, z) \<Rightarrow> x + y * n + z * (n * n))"

definition TSDF_stored :: "tsdf_block \<Rightarrow> vec3i \<Rightarrow> int \<Rightarrow> tsdf_data" where
  "TSDF_stored b v s =
     tsdf_block.block_data b
       ! nat (scale_offsets b ! nat s
              + linear_index (voxel_offset (tsdf_block.coord b) v s)
                  (2 ^ nat (tsdf_block.max_scale b - s)))"

definition Occ_stored :: "occ_block \<Rightarrow> heap \<Rightarrow> vec3i \<Rightarrow> int \<Rightarrow> occ_data" where
  "Occ_stored b h v s =
     the (cells h (block_data b ! nat (max_scale b - s)))
       ! nat (linear_index (voxel_offset (coord b) v s) (2 ^ nat (max_scale b - s)))"

text \<open>
  An occupancy block whose data can be read: the pyramid holds the arrays of the scales from
  \<open>max_scale\<close> down to at least \<open>current_scale\<close>, each of the size of its scale. A block that was
  never integrated is one of them.
\<close>

definition occ_data_wf :: "occ_block \<Rightarrow> heap \<Rightarrow> bool" where
  "occ_data_wf b h \<longleftrightarrow>
     0 \<le> current_scale b \<and> current_scale b \<le> max_scale b \<and> max_scale b < 31
     \<and> BlockSize b = 2 ^ nat (max_scale b)
     \<and> max_scale b - current_scale b < int (length (block_data b))
     \<and> int (length (block_data b)) \<le> max_scale b + 1
     \<and> (\<forall>i < length (block_data b).
           block_data b ! i \<noteq> 0
           \<and> (\<exists>arr. cells h (block_data b ! i) = Some arr \<and> int (length arr) = cu (2 ^ i)))"

text \<open>
  Example states: a block of side 2 at scale 1 with a buffer at the finer scale 0 that was
  integrated twenty times, and a block of side 2 at scale 0 with a buffer at the coarser
  scale 1.
\<close>

definition example_heap :: heap where
  "example_heap =
     \<lparr>cells = [1 \<mapsto> [\<lparr>occupancy = - 1, weight = 2, observed = True\<rparr>],
               2 \<mapsto> replicate 8 \<lparr>occupancy = - 1, weight = 1, observed = False\<rparr>],
      brk = 3\<rparr>"

definition example_block :: occ_block where
  "example_block =
     \<lparr>coord = (0, 0, 0), BlockSize = 2, max_scale = 1, current_scale = 1, min_scale = 1,
      block_data = [1], block_min_data = [1], block_max_data = [1], curr_data = 1,
      buffer_data = 2, buffer_scale = 0, curr_integr_count = 3, curr_observed_count = 1,
      buffer_integr_count = 20, buffer_observed_count = 8,
      init_data = \<lparr>occupancy = 0, weight = 0, observed = False\<rparr>\<rparr>"

definition example_heap_fine :: heap where
  "example_heap_fine =
     \<lparr>cells = [1 \<mapsto> [\<lparr>occupancy = - 1, weight = 2, observed = False\<rparr>],
               2 \<mapsto> replicate 8 \<lparr>occupancy = - 1, weight = 1, observed = True\<rparr>,
               3 \<mapsto> [\<lparr>occupancy = - 1, weight = 1, observed = True\<rparr>],
               4 \<mapsto> [\<lparr>occupancy = - 1, weight = 1, observed = True\<rparr>]],
      brk = 5\<rparr>"

definition example_block_fine :: occ_block where
  "example_block_fine =
     \<lparr>coord = (0, 0, 0), BlockSize = 2, max_scale = 1, current_scale = 0, min_scale = 0,
      block_data = [1, 2], block_min_data = [3, 2], block_max_data = [4, 2], curr_data = 2,
      buffer_data = 1, buffer_scale = 1, curr_integr_count = 30, curr_observed_count = 8,
      buffer_integr_count = 25, buffer_observed_count = 1,
      init_data = \<lparr>occupancy = 0, weight = 0, observed = False\<rparr>\<rparr>"

definition example_tsdf_block :: tsdf_block where
  "example_tsdf_block =
     \<lparr>tsdf_block.coord = (8, 0, 0), tsdf_block.max_scale = 1, tsdf_block.current_scale = 0,
      tsdf_block.block_data =
        [\<lparr>tsdf = 0, tsdf_data.weight = 10\<rparr>, \<lparr>tsdf = 1 / 10, tsdf_data.weight = 11\<rparr>,
         \<lparr>tsdf = 2 / 10, tsdf_data.weight = 12\<rparr>, \<lparr>tsdf = 3 / 10, tsdf_data.weight = 13\<rparr>,
         \<lparr>tsdf = 4 / 10, tsdf_data.weight = 14\<rparr>, \<lparr>tsdf = 5 / 10, tsdf_data.weight = 15\<rparr>,
         \<lparr>tsdf = 6 / 10, tsdf_data.weight = 16\<rparr>, \<lparr>tsdf = 7 / 10, tsdf_data.weight = 17\<rparr>,
         \<lparr>tsdf = 8 / 10, tsdf_data.weight = 18\<rparr>],
      size_at_scales = [2, 1], scale_offsets = [0, 8]\<rparr>"

text \<open>
  Example: an occupancy block of side 2 at scale 0 whose nine voxels, eight at scale 0 and
  one at scale 1, all differ.
\<close>

definition example_heap_voxels :: heap where
  "example_heap_voxels =
     \<lparr>cells = [1 \<mapsto> [\<lparr>occupancy = - 8, weight = 8, observed = True\<rparr>],
               2 \<mapsto> [\<lparr>occupancy = 0, weight = 1, observed = True\<rparr>,
                    \<lparr>occupancy = - 1, weight = 1, observed = True\<rparr>,
                    \<lparr>occupancy = - 2, weight = 1, observed = True\<rparr>,
                    \<lparr>occupancy = - 3, weight = 1, observed = True\<rparr>,
                    \<lparr>occupancy = - 4, weight = 1, observed = True\<rparr>,
                    \<lparr>occupancy = - 5, weight = 1, observed = True\<rparr>,
                    \<lparr>occupancy = - 6, weight = 1, observed = True\<rparr>,
                    \<lparr>occupancy = - 7, weight = 1, observed = True\<rparr>]],
      brk = 3\<rparr>"

definition example_block_voxels :: occ_block where
  "example_block_voxels =
     \<lparr>coord = (4, 0, 0), BlockSize = 2, max_scale = 1, current_scale = 0, min_scale = 0,
      block_data = [1, 2], block_min_data = [1, 2], block_max_data = [1, 2], curr_data = 2,
      buffer_data = 0, buffer_scale = - 1, curr_integr_count = 1, curr_observed_count = 8,
      buffer_integr_count = 0, buffer_observed_count = 0,
      init_data = \<lparr>occupancy = 0, weight = 0, observed = False\<rparr>\<rparr>"


section \<open>Octree store (\<open>se_map/include/se/octree/impl/octree_impl.hpp\<close>)\<close>

text \<open>
  The octree of this file keeps its octants in a memory pool and links them by pointers. The
  template parameter \<open>BlockSize\<close> is the argument \<open>block_size\<close> of the functions below, and
  \<open>child_idx\<close>, an \<open>unsigned int\<close>, is a natural number.
\<close>

text \<open>
  Modelled from the spec: \<open>math::is_power_of_two\<close> is not among the sources; an \<open>int\<close> is a power
  of two when it is one of \<open>2 ^ 0, ..., 2 ^ 30\<close>.
\<close>

definition is_power_of_two :: "int \<Rightarrow> bool" where
  "is_power_of_two x = (x \<in> set (map (\<lambda>k. 2 ^ k) [0..<31]))"

text \<open>
  The octants of the store (\<open>OctantBase\<close>, \<open>Node\<close> and \<open>Block\<close>), as the octree functions use
  them: coordinate, side and parent pointer, and for a node its eight child pointers.
\<close>

datatype pool_octant =
    PNode (pcoord: vec3i) (psize: int) (pparent: addr) (pchildren: "addr list")
  | PBlock (pcoord: vec3i) (pparent: addr)

text \<open>
  Modelled from the spec: the memory pool (\<open>memory_pool_\<close>) is not among the sources. The spec
  has an arena-style allocator of nodes and blocks: an octant is constructed at the next free
  address, which is not null, and stays there.
\<close>

record memory_pool =
  octants :: "addr \<Rightarrow> pool_octant option"
  next_addr :: addr

record octree =
  octree_size :: int
  root_ptr :: addr
  pool :: memory_pool

text \<open>The offset of child \<open>child_idx\<close>: the three bits of the index select the half per axis.\<close>

definition child_offset :: "nat \<Rightarrow> int \<Rightarrow> vec3i" where
  "child_offset child_idx half =
     (half * int (child_idx mod 2), half * int (child_idx div 2 mod 2),
      half * int (child_idx div 4 mod 2))"

definition vadd :: "vec3i \<Rightarrow> vec3i \<Rightarrow> vec3i" where
  "vadd a b = (case a of (ax, ay, az) \<Rightarrow> case b of (bx, by, bz) \<Rightarrow> (ax + bx, ay + by, az + bz))"

text \<open>
  Modelled from the spec: \<open>memory_pool_.allocateNode(coord, size)\<close>,
  \<open>allocateNode(parent_ptr, child_idx)\<close> and \<open>allocateBlock(parent_ptr, child_idx)\<close>. The
  coordinate of a child is the coordinate of the parent plus the half-selector of the index
  times half the side of the parent; the block constructor of part_009 (lines 881-898) does
  this with \<open>BlockSize\<close>. A new node has eight null child pointers.
\<close>

definition pool_new :: "pool_octant \<Rightarrow> memory_pool \<Rightarrow> addr \<times> memory_pool" where
  "pool_new oct p =
     (next_addr p,
      \<lparr>octants = (octants p)(next_addr p \<mapsto> oct), next_addr = Suc (next_addr p)\<rparr>)"

definition allocateRootNode :: "vec3i \<Rightarrow> int \<Rightarrow> memory_pool \<Rightarrow> addr \<times> memory_pool" where
  "allocateRootNode c sz p = pool_new (PNode c sz 0 (replicate 8 0)) p"

definition allocateNode :: "addr \<Rightarrow> pool_octant \<Rightarrow> nat \<Rightarrow> memory_pool \<Rightarrow> addr \<times> memory_pool" where
  "allocateNode parent_ptr parent child_idx p =
     pool_new (PNode (vadd (pcoord parent) (child_offset child_idx (psize parent div 2)))
                 (psize parent div 2) parent_ptr (replicate 8 0)) p"

definition allocateBlock :: "int \<Rightarrow> addr \<Rightarrow> pool_octant \<Rightarrow> nat \<Rightarrow> memory_pool \<Rightarrow> addr \<times> memory_pool" where
  "allocateBlock block_size parent_ptr parent child_idx p =
     pool_new (PBlock (vadd (pcoord parent) (child_offset child_idx block_size)) parent_ptr) p"

text \<open>
  Modelled from the spec: \<open>math::power_two_up\<close> is not among the sources. The spec rounds the
  size up to the next power of two: the result is the first of \<open>2 ^ 0, ..., 2 ^ 30\<close> that is at
  least the argument, and there is none in an \<open>int\<close> for a larger argument.
\<close>

definition power_two_up :: "int \<Rightarrow> int option" where
  "power_two_up x = List.find (\<lambda>p. x \<le> p) (map (\<lambda>k. 2 ^ k) [0..<31])"

text \<open>
  \<open>Octree::Octree\<close> (type_util.hpp, lines 311-315): the side is
  \<open>math::power_two_up(std::max(size, 2 * BlockSize))\<close>, and the root is allocated with it.
\<close>

definition Octree :: "int \<Rightarrow> int \<Rightarrow> octree option" where
  "Octree block_size sz =
     do {
       s \<leftarrow> power_two_up (max sz (2 * block_size));
       (case allocateRootNode (0, 0, 0) s \<lparr>octants = Map.empty, next_addr = 1\<rparr> of
          (r, p) \<Rightarrow> Some \<lparr>octree_size = s, root_ptr = r, pool = p\<rparr>)
     }"

text \<open>
  The constructor of the older revision (se_map/include/se/octree/impl/octree_impl.hpp, lines
  10-16), which keeps the size it is given. Its two assertions are compiled out when \<open>NDEBUG\<close>
  is defined: \<open>ndebug\<close> says which build runs.
\<close>

definition Octree_older :: "bool \<Rightarrow> int \<Rightarrow> int \<Rightarrow> octree option" where
  "Octree_older ndebug block_size sz =
     (if \<not> ndebug \<and> \<not> is_power_of_two sz then None
      else if \<not> ndebug \<and> \<not> block_size < sz then None
      else (case allocateRootNode (0, 0, 0) sz \<lparr>octants = Map.empty, next_addr = 1\<rparr> of
              (r, p) \<Rightarrow> Some \<lparr>octree_size = sz, root_ptr = r, pool = p\<rparr>))"

text \<open>
  The parent of an allocation: a non-null pointer to a node of the pool. Anything else fails
  the assertions of \<open>allocate\<close> or is undefined.
\<close>

definition parent_node :: "octree \<Rightarrow> addr \<Rightarrow> pool_octant option" where
  "parent_node oc parent_ptr =
     (if parent_ptr = 0 then None
      else case octants (pool oc) parent_ptr of
             Some (PNode c s par cs) \<Rightarrow> Some (PNode c s par cs)
           | _ \<Rightarrow> None)"

text \<open>\<open>Node::setChild\<close> on the node at \<open>parent_ptr\<close>.\<close>

definition setChild :: "addr \<Rightarrow> pool_octant \<Rightarrow> nat \<Rightarrow> addr \<Rightarrow> memory_pool \<Rightarrow> memory_pool option" where
  "setChild parent_ptr parent child_idx child_ptr p =
     do {
       cs \<leftarrow> vec_set (pchildren parent) (int child_idx) child_ptr;
       Some (p\<lparr>octants := (octants p)(parent_ptr \<mapsto>
               PNode (pcoord parent) (psize parent) (pparent parent) cs)\<rparr>)
     }"

text \<open>
  The part the two overloads of \<open>allocate\<close> share once the child is known to be missing
  (octree_impl.hpp, lines 72-85 and 107-120): allocate a block below a node of side
  \<open>2 * block_size\<close>, a node otherwise, and store the pointer in the parent.
\<close>

definition allocate_new :: "int \<Rightarrow> octree \<Rightarrow> addr \<Rightarrow> pool_octant \<Rightarrow> nat \<Rightarrow> (addr \<times> octree) option" where
  "allocate_new block_size oc parent_ptr parent child_idx =
     (case (if psize parent = block_size * 2
            then allocateBlock block_size parent_ptr parent child_idx (pool oc)
            else allocateNode parent_ptr parent child_idx (pool oc)) of
        (child_ptr, p1) \<Rightarrow>
          do {
            p2 \<leftarrow> setChild parent_ptr parent child_idx child_ptr p1;
            Some (child_ptr, oc\<lparr>pool := p2\<rparr>)
          })"

text \<open>\<open>Octree::allocate(parent_ptr, child_idx)\<close> (octree_impl.hpp, lines 95-122).\<close>

definition allocate :: "int \<Rightarrow> octree \<Rightarrow> addr \<Rightarrow> nat \<Rightarrow> (addr \<times> octree) option" where
  "allocate block_size oc parent_ptr child_idx =
     do {
       parent \<leftarrow> parent_node oc parent_ptr;
       child_ptr \<leftarrow> vec_at (pchildren parent) (int child_idx);
       (if child_ptr \<noteq> 0 then Some (child_ptr, oc)
        else allocate_new block_size oc parent_ptr parent child_idx)
     }"

text \<open>
  \<open>Octree::allocate(parent_ptr, child_idx, child_ptr)\<close> (octree_impl.hpp, lines 59-87): the flag
  says whether an octant was allocated.
\<close>

definition allocate_flag :: "int \<Rightarrow> octree \<Rightarrow> addr \<Rightarrow> nat \<Rightarrow> (bool \<times> addr \<times> octree) option" where
  "allocate_flag block_size oc parent_ptr child_idx =
     do {
       parent \<leftarrow> parent_node oc parent_ptr;
       child_ptr \<leftarrow> vec_at (pchildren parent) (int child_idx);
       (if child_ptr \<noteq> 0 then Some (False, child_ptr, oc)
        else do {
          (child_ptr, oc1) \<leftarrow> allocate_new block_size oc parent_ptr parent child_idx;
          Some (True, child_ptr, oc1)
        })
     }"

section \<open>Propagation to the root (\<open>unnamed/part_003\<close>, \<open>unnamed/part_004\<close>)\<close>

text \<open>
  The propagation reads and writes the octree through octant pointers only, and every octant
  but the root is reached through exactly one child pointer. The octree is therefore a tree of
  octants here.
\<close>

text \<open>
  An octant of the tree: a block with its timestamp and the coarsest minimum and maximum data
  (\<open>minData()\<close>, \<open>maxData()\<close>), or a node with its timestamp, its minimum and maximum data and
  its eight child pointers, a null pointer being \<open>None\<close>. An octant owns its children, so an
  octant pointer is the path of child indices that leads to it from the root, and the parent
  pointer is the path without its last index.
\<close>

datatype octant =
    Block (timestamp: int) (minData: occ_data) (maxData: occ_data)
  | Node (timestamp: int) (min_data: occ_data) (max_data: occ_data) (children: "octant option list")


text \<open>\<open>std::numeric_limits<field_t>::max()\<close> and \<open>lowest()\<close> for \<open>field_t = float\<close>.\<close>

definition field_max :: real where
  "field_max = 340282346638528859811704183484516925440"

definition field_lowest :: real where
  "field_lowest = - field_max"

text \<open>
  The local variables of \<open>propagate_to_parent_node\<close> that the loop over the children updates.
  \<open>max_weight\<close> is \<open>max_weight_acc\<close> here, \<open>max_weight\<close> being a field of the configuration.
\<close>

record child_aggregate =
  max_occupancy :: real
  max_mean_occupancy :: real
  max_weight_acc :: real
  max_data_count :: int
  min_mean_occupancy :: real
  min_weight :: real
  min_occupancy :: real
  min_data_count :: int
  observed_count :: int

definition aggregate_init :: child_aggregate where
  "aggregate_init =
     \<lparr>max_occupancy = field_lowest, max_mean_occupancy = 0, max_weight_acc = 0, max_data_count = 0,
      min_mean_occupancy = 0, min_weight = 0, min_occupancy = field_max, min_data_count = 0,
      observed_count = 0\<rparr>"

definition child_min_data :: "octant \<Rightarrow> occ_data" where
  "child_min_data child = (case child of Block t mn mx \<Rightarrow> mn | Node t mn mx cs \<Rightarrow> mn)"

definition child_max_data :: "octant \<Rightarrow> occ_data" where
  "child_max_data child = (case child of Block t mn mx \<Rightarrow> mx | Node t mn mx cs \<Rightarrow> mx)"

text \<open>
  One pass of the loop body for a non-null child (part_003, lines 86-116). \<open>get_field\<close> is not
  among the sources and is a parameter. The assertion that the two observed flags agree is
  compiled out when \<open>NDEBUG\<close> is defined.
\<close>

definition child_step ::
  "bool \<Rightarrow> (occ_data \<Rightarrow> real) \<Rightarrow> octant \<Rightarrow> child_aggregate \<Rightarrow> child_aggregate option" where
  "child_step ndebug get_field child a =
     (let a1 = (if weight (child_min_data child) > 0
                   \<and> get_field (child_min_data child) < min_occupancy a
                then a\<lparr>min_mean_occupancy := occupancy (child_min_data child),
                       min_weight := weight (child_min_data child),
                       min_occupancy := get_field (child_min_data child),
                       min_data_count := min_data_count a + 1\<rparr>
                else a);
          a2 = (if weight (child_max_data child) > 0
                   \<and> get_field (child_max_data child) > max_occupancy a1
                then a1\<lparr>max_mean_occupancy := occupancy (child_max_data child),
                        max_weight_acc := weight (child_max_data child),
                        max_occupancy := get_field (child_max_data child),
                        max_data_count := max_data_count a1 + 1\<rparr>
                else a1)
      in if \<not> ndebug \<and> observed (child_min_data child) \<noteq> observed (child_max_data child)
         then None
         else Some (if observed (child_max_data child)
                    then a2\<lparr>observed_count := observed_count a2 + 1\<rparr> else a2))"

text \<open>The loop over the eight child pointers: a null child is skipped.\<close>

fun children_loop ::
  "bool \<Rightarrow> (occ_data \<Rightarrow> real) \<Rightarrow> octant option list \<Rightarrow> child_aggregate \<Rightarrow> child_aggregate option" where
  "children_loop ndebug get_field [] a = Some a"
| "children_loop ndebug get_field (None # cs) a = children_loop ndebug get_field cs a"
| "children_loop ndebug get_field (Some child # cs) a =
     do {
       a' \<leftarrow> child_step ndebug get_field child a;
       children_loop ndebug get_field cs a'
     }"

text \<open>
  \<open>propagate_to_parent_node\<close> (part_003, lines 57-133): the node with its new timestamp and
  aggregates, and the maximum data it returns. A block fails the assertion and is no \<open>NodeT\<close>;
  a node has exactly eight child pointers.
\<close>

definition propagate_to_parent_node ::
  "bool \<Rightarrow> (occ_data \<Rightarrow> real) \<Rightarrow> octant \<Rightarrow> int \<Rightarrow> (octant \<times> occ_data) option" where
  "propagate_to_parent_node ndebug get_field octant ts =
     (case octant of
        Block t mn mx \<Rightarrow> None
      | Node t mn mx cs \<Rightarrow>
          if length cs \<noteq> 8 then None
          else do {
            a \<leftarrow> children_loop ndebug get_field cs aggregate_init;
            let mn1 = (if min_data_count a > 0
                       then (let m = mn\<lparr>occupancy := min_mean_occupancy a, weight := min_weight a\<rparr>
                             in if observed_count a = 8 then m\<lparr>observed := True\<rparr> else m)
                       else mn);
                mx1 = (if max_data_count a > 0
                       then (let m = mx\<lparr>occupancy := max_mean_occupancy a, weight := max_weight_acc a\<rparr>
                             in if observed_count a = 8 then m\<lparr>observed := True\<rparr> else m)
                       else mx)
            in Some (Node ts mn1 mx1 cs, mx1)
          })"














section \<open>Visitor queries (\<open>unnamed/part_008\<close>)\<close>

text \<open>
  Modelled from the spec: \<open>visitor::getData\<close> and \<open>visitor::getField\<close> are declared in part_008,
  and neither their bodies nor the fetcher they use are among the sources. Their comments say
  that \<open>getData\<close> returns the data of the voxel and ``init data if block is not allocated'', and
  that \<open>getField\<close> returns the field value ``if the data is valid, \<open>{}\<close>/invalid otherwise''; the
  spec says that a query of an unallocated region returns \<open>None\<close>. The lookup of the block that
  holds a voxel, the data of a voxel of a block, the validity test and the field value are
  parameters.
\<close>

definition getData :: "(vec3i \<Rightarrow> 'b option) \<Rightarrow> ('b \<Rightarrow> vec3i \<Rightarrow> 'd) \<Rightarrow> 'd \<Rightarrow> vec3i \<Rightarrow> 'd" where
  "getData fetch_block voxel_data init voxel_coord =
     (case fetch_block voxel_coord of
        None \<Rightarrow> init
      | Some block \<Rightarrow> voxel_data block voxel_coord)"

text \<open>Modelled from the spec: see \<open>getData\<close>.\<close>

definition getField ::
  "(vec3i \<Rightarrow> 'b option) \<Rightarrow> ('b \<Rightarrow> vec3i \<Rightarrow> 'd) \<Rightarrow> ('d \<Rightarrow> bool) \<Rightarrow> ('d \<Rightarrow> real) \<Rightarrow> vec3i
     \<Rightarrow> real option" where
  "getField fetch_block voxel_data is_valid get_field voxel_coord =
     (case fetch_block voxel_coord of
        None \<Rightarrow> None
      | Some block \<Rightarrow>
          if is_valid (voxel_data block voxel_coord)
          then Some (get_field (voxel_data block voxel_coord)) else None)"

section \<open>Specification vocabulary for the octree\<close>

text \<open>The predicates the statements about the octree use, and the states of the examples.\<close>

text \<open>A pool whose next free address is not null and lies above every octant it holds.\<close>

definition pool_wf :: "memory_pool \<Rightarrow> bool" where
  "pool_wf p \<longleftrightarrow> 0 < next_addr p \<and> (\<forall>a. next_addr p \<le> a \<longrightarrow> octants p a = None)"

text \<open>
  What the loop of \<open>propagate_to_parent_node\<close> tests in a child pointer: whether the child is there
  and observed, whether it has a positive weight and a field value above (for the maximum) or
  below (for the minimum) a bound, and whether the observed flags of its two data agree.
\<close>

definition child_observed :: "octant option \<Rightarrow> bool" where
  "child_observed c =
     (case c of None \<Rightarrow> False | Some child \<Rightarrow> observed (child_max_data child))"

definition child_weighted_above :: "(occ_data \<Rightarrow> real) \<Rightarrow> real \<Rightarrow> octant option \<Rightarrow> bool" where
  "child_weighted_above get_field bound c =
     (case c of None \<Rightarrow> False
      | Some child \<Rightarrow>
          weight (child_max_data child) > 0 \<and> get_field (child_max_data child) > bound)"

definition child_weighted_below :: "(occ_data \<Rightarrow> real) \<Rightarrow> real \<Rightarrow> octant option \<Rightarrow> bool" where
  "child_weighted_below get_field bound c =
     (case c of None \<Rightarrow> False
      | Some child \<Rightarrow>
          weight (child_min_data child) > 0 \<and> get_field (child_min_data child) < bound)"

definition flags_agree :: "octant option \<Rightarrow> bool" where
  "flags_agree c = (case c of None \<Rightarrow> True
      | Some child \<Rightarrow> observed (child_min_data child) = observed (child_max_data child))"

text \<open>
  Examples: a field value, the data of a free observed voxel and of an unseen one, a block
  with the former, a node with eight such blocks and a node with one.
\<close>

definition example_get_field :: "occ_data \<Rightarrow> real" where
  "example_get_field d = occupancy d * weight d"

definition example_free_data :: occ_data where
  "example_free_data = \<lparr>occupancy = - 5, weight = 20, observed = True\<rparr>"

definition example_init_data :: occ_data where
  "example_init_data = \<lparr>occupancy = 0, weight = 0, observed = False\<rparr>"

definition example_free_block :: octant where
  "example_free_block = Block 0 example_free_data example_free_data"

definition example_full_node :: octant where
  "example_full_node =
     Node 0 example_init_data example_init_data (replicate 8 (Some example_free_block))"

definition example_sparse_node :: octant where
  "example_sparse_node =
     Node 0 example_init_data example_init_data (Some example_free_block # replicate 7 None)"

text \<open>The condition the spec gives for an observed node.\<close>

definition every_nonnull_child_observed :: "octant \<Rightarrow> bool" where
  "every_nonnull_child_observed node =
     list_all (\<lambda>c. case c of None \<Rightarrow> True | Some child \<Rightarrow> observed (child_max_data child))
       (children node)"





text \<open>Example: the pool of an octree of side 16 that holds the root only.\<close>

definition example_octree :: octree where
  "example_octree =
     \<lparr>octree_size = 16, root_ptr = 1,
      pool = \<lparr>octants = [1 \<mapsto> PNode (0, 0, 0) 16 0 (replicate 8 0)], next_addr = 2\<rparr>\<rparr>"

text \<open>
  Example: an occupancy block of side 8 that was never integrated. It holds the array of the
  coarsest scale only, and its \<open>min_scale\<close> is still \<open>-1\<close>.
\<close>

definition example_heap_unintegrated :: heap where
  "example_heap_unintegrated =
     \<lparr>cells = [1 \<mapsto> [\<lparr>occupancy = 0, weight = 0, observed = False\<rparr>]], brk = 2\<rparr>"

definition example_block_unintegrated :: occ_block where
  "example_block_unintegrated =
     \<lparr>coord = (0, 0, 0), BlockSize = 8, max_scale = 3, current_scale = 3, min_scale = - 1,
      block_data = [1], block_min_data = [1], block_max_data = [1], curr_data = 1,
      buffer_data = 0, buffer_scale = - 1, curr_integr_count = 0, curr_observed_count = 0,
      buffer_integr_count = 0, buffer_observed_count = 0,
      init_data = \<lparr>occupancy = 0, weight = 0, observed = False\<rparr>\<rparr>"


section \<open>Properties of the TSDF updater\<close>

lemma clamp_ratio_in_band:
  assumes "0 < tau" and "- tau < sdf"
  shows "clamp (sdf / tau) (- 1) 1 = min 1 (sdf / tau)"
  using assms by (simp add: clamp_def min_def max_def field_simps)

text \<open>
  Claim C1. With a positive truncation boundary \<open>tau\<close>: when \<open>sdf > - tau\<close> the stored value
  becomes \<open>clamp ((value * weight + t') / (weight + 1)) (-1) 1\<close> with
  \<open>t' = clamp (sdf / tau) (-1) 1\<close> and the stored weight becomes \<open>min (weight + 1) W_max\<close>; when
  \<open>sdf \<le> - tau\<close> the voxel is returned as it was.
\<close>

theorem updateVoxel_fusion:
  assumes "0 < tau"
  shows "(- tau < sdf \<longrightarrow>
            tsdf (data (updateVoxel W du sdf tau)) =
              clamp ((tsdf (data du) * tsdf_data.weight (data du) + clamp (sdf / tau) (- 1) 1)
                       / (tsdf_data.weight (data du) + 1)) (- 1) 1
          \<and> tsdf_data.weight (data (updateVoxel W du sdf tau)) =
              min (tsdf_data.weight (data du) + 1) W)
       \<and> (sdf \<le> - tau \<longrightarrow> updateVoxel W du sdf tau = du)"
  using clamp_ratio_in_band [OF assms, of sdf]
  by (simp add: updateVoxel_def Let_def)

theorem updateVoxel_fusion_witness:
  "tsdf (data (updateVoxel 100
      \<lparr>data = \<lparr>tsdf = 1, tsdf_data.weight = 0\<rparr>,
       prop_data = \<lparr>delta_tsdf = 0, delta_weight = 0\<rparr>\<rparr> (1 / 2) 2)) = 1 / 4
   \<and> tsdf_data.weight (data (updateVoxel 100
      \<lparr>data = \<lparr>tsdf = 1, tsdf_data.weight = 0\<rparr>,
       prop_data = \<lparr>delta_tsdf = 0, delta_weight = 0\<rparr>\<rparr> (1 / 2) 2)) = 1
   \<and> updateVoxel 100
      \<lparr>data = \<lparr>tsdf = 1, tsdf_data.weight = 5\<rparr>,
       prop_data = \<lparr>delta_tsdf = 0, delta_weight = 0\<rparr>\<rparr> (- 3) 2
     = \<lparr>data = \<lparr>tsdf = 1, tsdf_data.weight = 5\<rparr>,
        prop_data = \<lparr>delta_tsdf = 0, delta_weight = 0\<rparr>\<rparr>"
proof -
  have pos: "(0::real) < 2" by simp
  note a = updateVoxel_fusion [OF pos, of "1 / 2" 100
      "\<lparr>data = \<lparr>tsdf = 1, tsdf_data.weight = 0\<rparr>,
        prop_data = \<lparr>delta_tsdf = 0, delta_weight = 0\<rparr>\<rparr>"]
  note b = updateVoxel_fusion [OF pos, of "- 3" 100
      "\<lparr>data = \<lparr>tsdf = 1, tsdf_data.weight = 5\<rparr>,
        prop_data = \<lparr>delta_tsdf = 0, delta_weight = 0\<rparr>\<rparr>"]
  from a have "tsdf (data (updateVoxel 100
      \<lparr>data = \<lparr>tsdf = 1, tsdf_data.weight = 0\<rparr>,
       prop_data = \<lparr>delta_tsdf = 0, delta_weight = 0\<rparr>\<rparr> (1 / 2) 2)) = 1 / 4
   \<and> tsdf_data.weight (data (updateVoxel 100
      \<lparr>data = \<lparr>tsdf = 1, tsdf_data.weight = 0\<rparr>,
       prop_data = \<lparr>delta_tsdf = 0, delta_weight = 0\<rparr>\<rparr> (1 / 2) 2)) = 1"
    by (simp add: clamp_def)
  moreover from b have "updateVoxel 100
      \<lparr>data = \<lparr>tsdf = 1, tsdf_data.weight = 5\<rparr>,
       prop_data = \<lparr>delta_tsdf = 0, delta_weight = 0\<rparr>\<rparr> (- 3) 2
     = \<lparr>data = \<lparr>tsdf = 1, tsdf_data.weight = 5\<rparr>,
        prop_data = \<lparr>delta_tsdf = 0, delta_weight = 0\<rparr>\<rparr>"
    by simp
  ultimately show ?thesis by simp
qed


section \<open>Properties of the occupancy voxel update\<close>

text \<open>
  Claim C3. The piecewise response of \<open>update_voxel\<close>, for a positive \<open>three_sigma\<close> and a
  non-negative \<open>tau\<close>, so that the four ranges of the claim follow one another: below
  \<open>- three_sigma\<close> the sample is \<open>log_odd_min\<close>; on \<open>[- three_sigma, tau / 2)\<close> it is the ramp
  capped at \<open>log_odd_max\<close>; on \<open>[tau / 2, tau)\<close> it is
  \<open>min (- log_odd_min * tau / (2 * three_sigma)) log_odd_max\<close>; from \<open>tau\<close> on nothing is fused
  and the data is unchanged.
\<close>

theorem update_voxel_piecewise:
  assumes "0 < three_sigma" and "0 \<le> tau"
  shows "(range_diff < - three_sigma \<longrightarrow>
            update_voxel upd cfg d range_diff tau three_sigma =
              Some (upd (log_odd_min cfg) (max_weight cfg) d, \<not> observed d))
       \<and> (- three_sigma \<le> range_diff \<and> range_diff < tau / 2 \<longrightarrow>
            update_voxel upd cfg d range_diff tau three_sigma =
              Some (upd (min (log_odd_min cfg
                                - (log_odd_min cfg / three_sigma) * (range_diff + three_sigma))
                             (log_odd_max cfg)) (max_weight cfg) d, \<not> observed d))
       \<and> (tau / 2 \<le> range_diff \<and> range_diff < tau \<longrightarrow>
            update_voxel upd cfg d range_diff tau three_sigma =
              Some (upd (min (- log_odd_min cfg * tau / (2 * three_sigma)) (log_odd_max cfg))
                        (max_weight cfg) d, \<not> observed d))
       \<and> (tau \<le> range_diff \<longrightarrow>
            update_voxel upd cfg d range_diff tau three_sigma = Some (d, False))"
  using assms by (auto simp add: update_voxel_def sample_value_def Let_def)

theorem update_voxel_piecewise_witness:
  "update_voxel (\<lambda>s w d. d\<lparr>occupancy := s\<rparr>)
       \<lparr>log_odd_min = - 5, log_odd_max = 5, max_weight = 100\<rparr>
       \<lparr>occupancy = 7, weight = 0, observed = False\<rparr> (- 2) 2 1
     = Some (\<lparr>occupancy = - 5, weight = 0, observed = False\<rparr>, True)
   \<and> update_voxel (\<lambda>s w d. d\<lparr>occupancy := s\<rparr>)
       \<lparr>log_odd_min = - 5, log_odd_max = 5, max_weight = 100\<rparr>
       \<lparr>occupancy = 7, weight = 0, observed = False\<rparr> (- 1 / 2) 2 1
     = Some (\<lparr>occupancy = - 5 / 2, weight = 0, observed = False\<rparr>, True)
   \<and> update_voxel (\<lambda>s w d. d\<lparr>occupancy := s\<rparr>)
       \<lparr>log_odd_min = - 5, log_odd_max = 5, max_weight = 100\<rparr>
       \<lparr>occupancy = 7, weight = 0, observed = False\<rparr> (3 / 2) 2 1
     = Some (\<lparr>occupancy = 5, weight = 0, observed = False\<rparr>, True)
   \<and> update_voxel (\<lambda>s w d. d\<lparr>occupancy := s\<rparr>)
       \<lparr>log_odd_min = - 5, log_odd_max = 5, max_weight = 100\<rparr>
       \<lparr>occupancy = 7, weight = 0, observed = False\<rparr> 3 2 1
     = Some (\<lparr>occupancy = 7, weight = 0, observed = False\<rparr>, False)"
proof -
  have h1: "(0::real) < 1" and h2: "(0::real) \<le> 2" by simp_all
  note t = update_voxel_piecewise [OF h1 h2, of _ "\<lambda>s w d. d\<lparr>occupancy := s\<rparr>"
      "\<lparr>log_odd_min = - 5, log_odd_max = 5, max_weight = 100\<rparr>"
      "\<lparr>occupancy = 7, weight = 0, observed = False\<rparr>"]
  show ?thesis
    using t [of "- 2"] t [of "- 1 / 2"] t [of "3 / 2"] t [of 3] by simp
qed


section \<open>Properties of the blocks\<close>

lemma deref_heap_store [simp]:
  "deref (heap_store h a arr) a' = (if a' = 0 then None else if a' = a then Some arr else deref h a')"
  by (simp add: deref_def heap_store_def)

lemma heap_store_twice [simp]:
  "heap_store (heap_store h a x) a y = heap_store h a y"
  by (simp add: heap_store_def)

lemma heap_store_same:
  "deref h a = Some arr \<Longrightarrow> heap_store h a arr = h"
  by (auto simp: deref_def heap_store_def map_upd_triv split: if_splits)

lemma brk_heap_store [simp]: "brk (heap_store h a arr) = brk h"
  by (simp add: heap_store_def)

lemma cells_heap_store [simp]:
  "cells (heap_store h a arr) a' = (if a' = a then Some arr else cells h a')"
  by (simp add: heap_store_def)

lemma mark_observed_loop_spec:
  assumes "deref h buf = Some arr" and "0 \<le> i" and "nat i + k \<le> length arr"
  shows "\<exists>arr'. mark_observed_loop k i buf h cnt =
            Some (heap_store h buf (arr'),
                  cnt + int (length (filter unobserved_weighted (take k (drop (nat i) arr)))))
          \<and> length arr' = length arr
          \<and> (\<forall>j<length arr. arr' ! j =
                (if nat i \<le> j \<and> j < nat i + k then mark_voxel (arr ! j) else arr ! j))"
  using assms
proof (induction k arbitrary: i h arr cnt)
  case 0
  then have "heap_store h buf arr = h"
    by (simp add: heap_store_same)
  then show ?case by (intro exI [of _ arr]) auto
next
  case (Suc k)
  let ?d = "arr ! nat i"
  have buf: "buf \<noteq> 0" using Suc.prems(1) by (auto simp: deref_def split: if_splits)
  have inb: "nat i < length arr" using Suc.prems by simp
  have at: "vec_at arr i = Some ?d" using inb Suc.prems(2) by (simp add: vec_at_def)
  have nat_suc: "nat (i + 1) = Suc (nat i)" using Suc.prems(2) by simp
  have split: "take (Suc k) (drop (nat i) arr) = ?d # take k (drop (Suc (nat i)) arr)"
    using inb by (simp add: Cons_nth_drop_Suc [symmetric])
  show ?case
  proof (cases "unobserved_weighted ?d")
    case True
    let ?arr1 = "arr[nat i := ?d\<lparr>observed := True\<rparr>]"
    let ?h1 = "heap_store h buf (?arr1)"
    have d1: "deref ?h1 buf = Some ?arr1" using buf by simp
    from Suc.IH [OF d1, of "i + 1" "cnt + 1"] Suc.prems nat_suc
    obtain arr' where
      r: "mark_observed_loop k (i + 1) buf ?h1 (cnt + 1) =
            Some (heap_store ?h1 buf arr',
                  cnt + 1 + int (length (filter unobserved_weighted (take k (drop (Suc (nat i)) ?arr1)))))"
      and l: "length arr' = length ?arr1"
      and n: "\<forall>j<length ?arr1. arr' ! j =
                (if Suc (nat i) \<le> j \<and> j < Suc (nat i) + k then mark_voxel (?arr1 ! j) else ?arr1 ! j)"
      by auto
    have dr: "drop (Suc (nat i)) ?arr1 = drop (Suc (nat i)) arr" by simp
    have "mark_observed_loop (Suc k) i buf h cnt =
            Some (heap_store h buf (arr'),
                  cnt + int (length (filter unobserved_weighted (take (Suc k) (drop (nat i) arr)))))"
      using True r Suc.prems(1) at by (simp add: split dr unobserved_weighted_def)
    moreover have "length arr' = length arr" using l by simp
    moreover have "\<forall>j<length arr. arr' ! j =
                (if nat i \<le> j \<and> j < nat i + Suc k then mark_voxel (arr ! j) else arr ! j)"
    proof (intro allI impI)
      fix j assume "j < length arr"
      then show "arr' ! j = (if nat i \<le> j \<and> j < nat i + Suc k then mark_voxel (arr ! j) else arr ! j)"
        using n True inb by (cases "j = nat i") (auto simp: mark_voxel_def)
    qed
    ultimately show ?thesis by blast
  next
    case False
    from Suc.IH [OF Suc.prems(1), of "i + 1" cnt] Suc.prems nat_suc
    obtain arr' where
      r: "mark_observed_loop k (i + 1) buf h cnt =
            Some (heap_store h buf (arr'),
                  cnt + int (length (filter unobserved_weighted (take k (drop (Suc (nat i)) arr)))))"
      and l: "length arr' = length arr"
      and n: "\<forall>j<length arr. arr' ! j =
                (if Suc (nat i) \<le> j \<and> j < Suc (nat i) + k then mark_voxel (arr ! j) else arr ! j)"
      by auto
    have "mark_observed_loop (Suc k) i buf h cnt =
            Some (heap_store h buf (arr'),
                  cnt + int (length (filter unobserved_weighted (take (Suc k) (drop (nat i) arr)))))"
      using False r Suc.prems(1) at by (auto simp add: split unobserved_weighted_def)
    moreover have "\<forall>j<length arr. arr' ! j =
                (if nat i \<le> j \<and> j < nat i + Suc k then mark_voxel (arr ! j) else arr ! j)"
    proof (intro allI impI)
      fix j assume "j < length arr"
      then show "arr' ! j = (if nat i \<le> j \<and> j < nat i + Suc k then mark_voxel (arr ! j) else arr ! j)"
        using n False inb by (cases "j = nat i") (auto simp: mark_voxel_def)
    qed
    ultimately show ?thesis using l by blast
  qed
qed

lemma mark_observed_loop_all:
  assumes "deref h buf = Some arr"
  shows "mark_observed_loop (length arr) 0 buf h cnt =
            Some (heap_store h buf (map mark_voxel arr),
                  cnt + int (length (filter unobserved_weighted arr)))"
proof -
  from mark_observed_loop_spec [OF assms, of 0 "length arr" cnt]
  obtain arr' where
    r: "mark_observed_loop (length arr) 0 buf h cnt =
            Some (heap_store h buf (arr'),
                  cnt + int (length (filter unobserved_weighted arr)))"
    and l: "length arr' = length arr"
    and n: "\<forall>j<length arr. arr' ! j = mark_voxel (arr ! j)"
    by auto
  have "arr' = map mark_voxel arr"
    using l n by (intro nth_equalityI) auto
  with r show ?thesis by simp
qed

lemma cells_heap_free [simp]:
  "cells (heap_free h a) a' = (if a' = a then None else cells h a')"
  by (simp add: heap_free_def)

lemma brk_heap_free [simp]: "brk (heap_free h a) = brk h"
  by (simp add: heap_free_def)

lemma delete_array_allocated:
  "a \<noteq> 0 \<Longrightarrow> cells h a \<noteq> None \<Longrightarrow> delete_array a h = Some (heap_free h a)"
  by (simp add: delete_array_def)

lemma vec_at_last:
  "xs \<noteq> [] \<Longrightarrow> i = int (length xs) - 1 \<Longrightarrow> vec_at xs i = Some (last xs)"
  by (simp add: vec_at_def last_conv_nth nat_diff_distrib')

lemma pop_back_nonempty: "xs \<noteq> [] \<Longrightarrow> pop_back xs = Some (butlast xs)"
  by (simp add: pop_back_def)

lemma set_drop_butlast:
  assumes "n < length xs"
  shows "set (drop n xs) = insert (last xs) (set (drop n (butlast xs)))"
proof -
  have ne: "drop n xs \<noteq> []" using assms by simp
  have "set (drop n xs) = insert (last (drop n xs)) (set (butlast (drop n xs)))"
    using ne by (metis append_butlast_last_id list.simps(15) rotate1.simps(2) set_rotate1)
  then show ?thesis using assms by (simp add: butlast_drop [symmetric] del: butlast_drop)
qed

lemma deleteUpTo_loop_step:
  assumes "scale < n"
    and "int (length (block_data b)) = max_scale b - scale + 1"
    and "length (block_min_data b) = length (block_data b)"
    and "length (block_max_data b) = length (block_data b)"
    and "block_data b \<noteq> []"
    and "distinct (block_data b @ block_min_data b @ block_max_data b)"
    and "\<forall>a \<in> set (block_data b @ block_min_data b @ block_max_data b). a \<noteq> 0 \<and> cells h a \<noteq> None"
  shows "deleteUpTo_loop scale n b h =
           deleteUpTo_loop (scale + 1) n
             (b\<lparr>block_data := butlast (block_data b), block_min_data := butlast (block_min_data b),
                block_max_data := butlast (block_max_data b)\<rparr>)
             (heap_free (heap_free (heap_free h (last (block_data b))) (last (block_min_data b)))
                (last (block_max_data b)))"
proof -
  let ?bd = "block_data b" and ?bmin = "block_min_data b" and ?bmax = "block_max_data b"
  have ne: "?bd \<noteq> []" "?bmin \<noteq> []" "?bmax \<noteq> []" using assms by auto
  have idx: "max_scale b - scale = int (length ?bd) - 1"
    "max_scale b - scale = int (length ?bmin) - 1" "max_scale b - scale = int (length ?bmax) - 1"
    using assms by auto
  have mem: "last ?bd \<in> set ?bd" "last ?bmin \<in> set ?bmin" "last ?bmax \<in> set ?bmax"
    using ne by auto
  have neq: "last ?bmin \<noteq> last ?bd" "last ?bmax \<noteq> last ?bd" "last ?bmax \<noteq> last ?bmin"
    using assms(6) mem by auto
  have al: "last ?bd \<noteq> 0" "cells h (last ?bd) \<noteq> None" "last ?bmin \<noteq> 0"
    "cells h (last ?bmin) \<noteq> None" "last ?bmax \<noteq> 0" "cells h (last ?bmax) \<noteq> None"
    using assms(7) mem by auto
  have d1: "delete_array (last ?bd) h = Some (heap_free h (last ?bd))"
    using al by (simp add: delete_array_allocated)
  have d2: "delete_array (last ?bmin) (heap_free h (last ?bd))
              = Some (heap_free (heap_free h (last ?bd)) (last ?bmin))"
    using al neq by (simp add: delete_array_allocated)
  have d3: "delete_array (last ?bmax) (heap_free (heap_free h (last ?bd)) (last ?bmin))
              = Some (heap_free (heap_free (heap_free h (last ?bd)) (last ?bmin)) (last ?bmax))"
    using al neq by (simp add: delete_array_allocated)
  show ?thesis
    using assms(1) d1 d2 d3
    by (subst deleteUpTo_loop.simps)
       (simp add: vec_at_last [OF ne(1) idx(1)] vec_at_last [OF ne(2) idx(2)]
          vec_at_last [OF ne(3) idx(3)] pop_back_nonempty ne)
qed

lemma deleteUpTo_loop_done:
  "\<not> scale < n \<Longrightarrow> deleteUpTo_loop scale n b h = Some (b, h)"
  by (subst deleteUpTo_loop.simps) simp

lemma deleteUpTo_loop_spec:
  assumes "n \<le> max_scale b"
    and "int (length (block_data b)) = max_scale b - scale + 1"
    and "length (block_min_data b) = length (block_data b)"
    and "length (block_max_data b) = length (block_data b)"
    and "distinct (block_data b @ block_min_data b @ block_max_data b)"
    and "\<forall>a \<in> set (block_data b @ block_min_data b @ block_max_data b). a \<noteq> 0 \<and> cells h a \<noteq> None"
  shows "\<exists>h'. deleteUpTo_loop scale n b h =
            Some (b\<lparr>block_data := take (nat (max_scale b - n + 1)) (block_data b),
                    block_min_data := take (nat (max_scale b - n + 1)) (block_min_data b),
                    block_max_data := take (nat (max_scale b - n + 1)) (block_max_data b)\<rparr>, h')
          \<and> brk h' = brk h
          \<and> (\<forall>a. cells h' a =
                (if a \<in> set (drop (nat (max_scale b - n + 1)) (block_data b))
                       \<union> set (drop (nat (max_scale b - n + 1)) (block_min_data b))
                       \<union> set (drop (nat (max_scale b - n + 1)) (block_max_data b))
                 then None else cells h a))"
  using assms
proof (induction "nat (n - scale)" arbitrary: scale b h)
  case 0
  then have fin: "\<not> scale < n" by simp
  have "nat (max_scale b - n + 1) \<ge> length (block_data b)" using 0 fin by linarith
  then show ?case using 0 fin by (simp add: deleteUpTo_loop_done)
next
  case (Suc k)
  let ?L = "nat (max_scale b - n + 1)"
  let ?bd = "block_data b" and ?bmin = "block_min_data b" and ?bmax = "block_max_data b"
  let ?b1 = "b\<lparr>block_data := butlast ?bd, block_min_data := butlast ?bmin,
                block_max_data := butlast ?bmax\<rparr>"
  let ?h1 = "heap_free (heap_free (heap_free h (last ?bd)) (last ?bmin)) (last ?bmax)"
  have lt: "scale < n" using Suc.hyps(2) by linarith
  have ne: "?bd \<noteq> []" "?bmin \<noteq> []" "?bmax \<noteq> []" using Suc.prems lt by auto
  have step: "deleteUpTo_loop scale n b h = deleteUpTo_loop (scale + 1) n ?b1 ?h1"
    using deleteUpTo_loop_step [OF lt Suc.prems(2) Suc.prems(3) Suc.prems(4) ne(1) Suc.prems(5) Suc.prems(6)] .
  have k: "k = nat (n - (scale + 1))" using Suc.hyps(2) by linarith
  have p1: "n \<le> max_scale ?b1" using Suc.prems(1) by simp
  have p2: "int (length (block_data ?b1)) = max_scale ?b1 - (scale + 1) + 1"
    using Suc.prems(2) ne by (cases "block_data b") auto
  have p3: "length (block_min_data ?b1) = length (block_data ?b1)"
    "length (block_max_data ?b1) = length (block_data ?b1)"
    using Suc.prems by simp_all
  have p5: "distinct (block_data ?b1 @ block_min_data ?b1 @ block_max_data ?b1)"
    using Suc.prems(5) by (auto simp: distinct_butlast dest: in_set_butlastD)
  have notlast: "\<And>a xs. distinct xs \<Longrightarrow> a \<in> set (butlast xs) \<Longrightarrow> a \<noteq> last xs"
    by (metis append_butlast_last_id butlast.simps(1) distinct_append empty_iff empty_set
        disjoint_iff list.set_intros(1) distinct.simps(2))
  have p6: "\<forall>a \<in> set (block_data ?b1 @ block_min_data ?b1 @ block_max_data ?b1).
              a \<noteq> 0 \<and> cells ?h1 a \<noteq> None"
  proof
    fix a assume a: "a \<in> set (block_data ?b1 @ block_min_data ?b1 @ block_max_data ?b1)"
    then have in_orig: "a \<in> set (?bd @ ?bmin @ ?bmax)" by (auto dest: in_set_butlastD)
    have "last ?bd \<in> set ?bd" "last ?bmin \<in> set ?bmin" "last ?bmax \<in> set ?bmax"
      using ne by auto
    with a Suc.prems(5) have "a \<noteq> last ?bd \<and> a \<noteq> last ?bmin \<and> a \<noteq> last ?bmax"
      using notlast [of ?bd a] notlast [of ?bmin a] notlast [of ?bmax a]
      by (auto dest: in_set_butlastD)
    with in_orig Suc.prems(6) show "a \<noteq> 0 \<and> cells ?h1 a \<noteq> None" by auto
  qed
  from Suc.hyps(1) [OF k p1 p2 p3 p5 p6]
  obtain h' where
    r: "deleteUpTo_loop (scale + 1) n ?b1 ?h1 =
          Some (?b1\<lparr>block_data := take ?L (butlast ?bd),
                    block_min_data := take ?L (butlast ?bmin),
                    block_max_data := take ?L (butlast ?bmax)\<rparr>, h')"
    and bk: "brk h' = brk ?h1"
    and cl: "\<forall>a. cells h' a =
                (if a \<in> set (drop ?L (butlast ?bd)) \<union> set (drop ?L (butlast ?bmin))
                       \<union> set (drop ?L (butlast ?bmax))
                 then None else cells ?h1 a)"
    by auto
  have Llt: "?L < length ?bd" "?L < length ?bmin" "?L < length ?bmax"
    using Suc.prems lt by auto
  have tk: "take ?L (butlast ?bd) = take ?L ?bd" "take ?L (butlast ?bmin) = take ?L ?bmin"
    "take ?L (butlast ?bmax) = take ?L ?bmax"
    using Llt by (simp_all add: take_butlast)
  have "deleteUpTo_loop scale n b h =
          Some (b\<lparr>block_data := take ?L ?bd, block_min_data := take ?L ?bmin,
                  block_max_data := take ?L ?bmax\<rparr>, h')"
    using step r tk by simp
  moreover have "brk h' = brk h" using bk by simp
  moreover have "\<forall>a. cells h' a =
                (if a \<in> set (drop ?L ?bd) \<union> set (drop ?L ?bmin) \<union> set (drop ?L ?bmax)
                 then None else cells h a)"
    using cl by (auto simp: set_drop_butlast [OF Llt(1)] set_drop_butlast [OF Llt(2)]
        set_drop_butlast [OF Llt(3)])
  ultimately show ?case by blast
qed

lemma vec_at_nth: "0 \<le> i \<Longrightarrow> nat i < length xs \<Longrightarrow> vec_at xs i = Some (xs ! nat i)"
  by (simp add: vec_at_def)

lemma deleteUpTo_spec:
  assumes wf: "block_wf b h" and lo: "min_scale b < n" and hi: "n \<le> max_scale b"
  shows "\<exists>h'. deleteUpTo n b h =
            Some (b\<lparr>block_data := take (nat (max_scale b - n + 1)) (block_data b),
                    block_min_data := take (nat (max_scale b - n)) (block_min_data b)
                                        @ [block_data b ! nat (max_scale b - n)],
                    block_max_data := take (nat (max_scale b - n)) (block_max_data b)
                                        @ [block_data b ! nat (max_scale b - n)],
                    min_scale := n\<rparr>, h')
          \<and> brk h' = brk h
          \<and> (\<forall>a \<in> set (take (nat (max_scale b - n + 1)) (block_data b)). cells h' a = cells h a)"
proof -
  let ?L = "nat (max_scale b - n + 1)" and ?M = "nat (max_scale b - n)"
  let ?bd = "block_data b" and ?bmin = "block_min_data b" and ?bmax = "block_max_data b"
  have len: "int (length ?bd) = max_scale b - min_scale b + 1"
    "length ?bmin = length ?bd" "length ?bmax = length ?bd"
    and dist: "distinct (?bd @ butlast ?bmin @ butlast ?bmax)"
    and alloc: "\<forall>a \<in> set (?bd @ butlast ?bmin @ butlast ?bmax). a \<noteq> 0 \<and> cells h a \<noteq> None"
    and min0: "0 \<le> min_scale b"
    using wf by (auto simp: block_wf_def arrays_of_def)
  have ne: "?bd \<noteq> []" "?bmin \<noteq> []" "?bmax \<noteq> []" using len lo hi by auto
  have LM: "?L = Suc ?M" using hi by simp
  have Llt: "?L < length ?bd" using len lo hi by linarith
  have Mlt: "?M < length (butlast ?bd)" "?M < length (butlast ?bmin)" "?M < length (butlast ?bmax)"
    using len lo hi by auto
  \<comment> \<open>the finest mean array is deleted and the three vectors are popped\<close>
  let ?h1 = "heap_free h (last ?bd)"
  let ?b1 = "b\<lparr>block_data := butlast ?bd, block_min_data := butlast ?bmin,
                block_max_data := butlast ?bmax\<rparr>"
  have lastbd: "last ?bd \<in> set ?bd" using ne by simp
  have v0: "vec_at ?bd (max_scale b - min_scale b) = Some (last ?bd)"
    using len ne by (intro vec_at_last) auto
  have d0: "delete_array (last ?bd) h = Some ?h1"
    using alloc lastbd by (intro delete_array_allocated) auto
  \<comment> \<open>the loop\<close>
  have q1: "n \<le> max_scale ?b1" using hi by simp
  have q2: "int (length (block_data ?b1)) = max_scale ?b1 - (min_scale b + 1) + 1"
    using len ne by (cases ?bd) auto
  have q3: "length (block_min_data ?b1) = length (block_data ?b1)"
    "length (block_max_data ?b1) = length (block_data ?b1)"
    using len by simp_all
  have q5: "distinct (block_data ?b1 @ block_min_data ?b1 @ block_max_data ?b1)"
    using dist by (auto simp: distinct_butlast dest: in_set_butlastD)
  have notlast: "\<And>a. a \<in> set (butlast ?bd @ butlast ?bmin @ butlast ?bmax) \<Longrightarrow> a \<noteq> last ?bd"
  proof -
    fix a assume a: "a \<in> set (butlast ?bd @ butlast ?bmin @ butlast ?bmax)"
    have "distinct (butlast ?bd @ [last ?bd])" using dist ne by simp
    then have "last ?bd \<notin> set (butlast ?bd)" by simp
    moreover have "last ?bd \<notin> set (butlast ?bmin @ butlast ?bmax)"
      using dist lastbd by auto
    ultimately show "a \<noteq> last ?bd" using a by auto
  qed
  have q6: "\<forall>a \<in> set (block_data ?b1 @ block_min_data ?b1 @ block_max_data ?b1).
              a \<noteq> 0 \<and> cells ?h1 a \<noteq> None"
  proof
    fix a assume a: "a \<in> set (block_data ?b1 @ block_min_data ?b1 @ block_max_data ?b1)"
    then have "a \<in> set (?bd @ butlast ?bmin @ butlast ?bmax)" by (auto dest: in_set_butlastD)
    moreover have "a \<noteq> last ?bd" using a notlast by simp
    ultimately show "a \<noteq> 0 \<and> cells ?h1 a \<noteq> None" using alloc by auto
  qed
  from deleteUpTo_loop_spec [OF q1 q2 q3 q5 q6]
  obtain h2 where
    r: "deleteUpTo_loop (min_scale b + 1) n ?b1 ?h1 =
          Some (?b1\<lparr>block_data := take ?L (butlast ?bd),
                    block_min_data := take ?L (butlast ?bmin),
                    block_max_data := take ?L (butlast ?bmax)\<rparr>, h2)"
    and bk: "brk h2 = brk h"
    and cl: "\<forall>a. cells h2 a =
                (if a \<in> set (drop ?L (butlast ?bd)) \<union> set (drop ?L (butlast ?bmin))
                       \<union> set (drop ?L (butlast ?bmax))
                 then None else cells ?h1 a)"
    by auto
  let ?b2 = "?b1\<lparr>block_data := take ?L (butlast ?bd),
                   block_min_data := take ?L (butlast ?bmin),
                   block_max_data := take ?L (butlast ?bmax)\<rparr>"
  \<comment> \<open>the entries kept: not freed so far\<close>
  have kept: "\<And>xs a. xs \<in> {butlast ?bd, butlast ?bmin, butlast ?bmax} \<Longrightarrow> a \<in> set (take ?L xs)
                \<Longrightarrow> cells h2 a = cells h a"
  proof -
    fix xs a
    assume xs: "xs \<in> {butlast ?bd, butlast ?bmin, butlast ?bmax}" and a: "a \<in> set (take ?L xs)"
    have d: "distinct (butlast ?bd @ butlast ?bmin @ butlast ?bmax)" using q5 by simp
    have same: "\<And>ys. distinct ys \<Longrightarrow> a \<in> set (take ?L ys) \<Longrightarrow> a \<notin> set (drop ?L ys)"
      using set_take_disj_set_drop_if_distinct [of _ ?L ?L] by blast
    have ain: "a \<in> set xs" using a by (rule in_set_takeD)
    have own: "a \<notin> set (drop ?L xs)" using same [of xs] xs a d by auto
    have others: "\<And>ys. ys \<in> {butlast ?bd, butlast ?bmin, butlast ?bmax} \<Longrightarrow> ys \<noteq> xs
                    \<Longrightarrow> a \<notin> set ys"
      using xs ain d by auto
    have "\<And>ys. ys \<in> {butlast ?bd, butlast ?bmin, butlast ?bmax} \<Longrightarrow> a \<notin> set (drop ?L ys)"
      using own others in_set_dropD by metis
    then have "a \<notin> set (drop ?L (butlast ?bd)) \<union> set (drop ?L (butlast ?bmin))
                   \<union> set (drop ?L (butlast ?bmax))"
      by simp
    moreover have "a \<noteq> last ?bd"
      using xs ain notlast by auto
    ultimately show "cells h2 a = cells h a" using cl by simp
  qed
  have tk: "take ?L (butlast ?bd) = take ?L ?bd" using Llt by (simp add: take_butlast)
  have tkM: "take ?L (butlast ?bmin) = take ?M ?bmin @ [?bmin ! ?M]"
    "take ?L (butlast ?bmax) = take ?M ?bmax @ [?bmax ! ?M]"
    using Mlt LM len by (simp_all add: take_Suc_conv_app_nth nth_butlast take_butlast)
  \<comment> \<open>the min and max arrays at the new finest scale are replaced by the mean array\<close>
  let ?pm = "?bmin ! ?M" and ?px = "?bmax ! ?M"
  have pm_in: "?pm \<in> set (take ?L (butlast ?bmin))" "?px \<in> set (take ?L (butlast ?bmax))"
    using tkM by simp_all
  have pm_set: "?pm \<in> set (butlast ?bmin)" "?px \<in> set (butlast ?bmax)"
    using pm_in by (blast dest: in_set_takeD)+
  have pm_al: "?pm \<noteq> 0" "cells h ?pm \<noteq> None" "?px \<noteq> 0" "cells h ?px \<noteq> None"
    using alloc pm_set by auto
  have pm_h2: "cells h2 ?pm = cells h ?pm" "cells h2 ?px = cells h ?px"
    using kept [of "butlast ?bmin" ?pm] kept [of "butlast ?bmax" ?px] pm_in by simp_all
  have pm_ne: "?px \<noteq> ?pm"
    using q5 pm_set by auto
  let ?h3 = "heap_free h2 ?pm" and ?h4 = "heap_free (heap_free h2 ?pm) ?px"
  have d3: "delete_array ?pm h2 = Some ?h3"
    using pm_al pm_h2 by (intro delete_array_allocated) auto
  have d4: "delete_array ?px ?h3 = Some ?h4"
    using pm_al pm_h2 pm_ne by (intro delete_array_allocated) auto
  have vm: "vec_at (take ?L (butlast ?bmin)) (max_scale b - n) = Some ?pm"
    "vec_at (take ?L (butlast ?bmax)) (max_scale b - n) = Some ?px"
    "vec_at (take ?L (butlast ?bd)) (max_scale b - n) = Some (?bd ! ?M)"
    using hi Mlt LM tkM by (simp_all add: vec_at_def nth_append nth_butlast)
  have pb: "pop_back (take ?L (butlast ?bmin)) = Some (take ?M ?bmin)"
    "pop_back (take ?L (butlast ?bmax)) = Some (take ?M ?bmax)"
    using tkM by (simp_all add: pop_back_def)
  have res: "deleteUpTo n b h =
            Some (b\<lparr>block_data := take ?L ?bd,
                    block_min_data := take ?M ?bmin @ [?bd ! ?M],
                    block_max_data := take ?M ?bmax @ [?bd ! ?M],
                    min_scale := n\<rparr>, ?h4)"
    using lo hi min0 v0 d0 r d3 d4 vm pb ne tk
    by (simp add: deleteUpTo_def pop_back_nonempty)
  have "\<forall>a \<in> set (take ?L ?bd). cells ?h4 a = cells h a"
  proof
    fix a assume a: "a \<in> set (take ?L ?bd)"
    then have a': "a \<in> set (take ?L (butlast ?bd))" using tk by simp
    then have "cells h2 a = cells h a" using kept [of "butlast ?bd" a] by simp
    moreover have "a \<in> set (butlast ?bd)" using a' by (rule in_set_takeD)
    then have "a \<noteq> ?pm" "a \<noteq> ?px"
      using q5 pm_set by auto
    ultimately show "cells ?h4 a = cells h a" by simp
  qed
  with res bk show ?thesis by auto
qed

lemma shl1_Some: "0 \<le> s \<Longrightarrow> s < 31 \<Longrightarrow> shl1 s = Some (2 ^ nat s)"
  by (simp add: shl1_def)

lemma shr_pow2:
  assumes "0 \<le> s" and "s \<le> m" and "m < 31"
  shows "shr (2 ^ nat m) s = Some (2 ^ nat (m - s))"
proof -
  have "nat m = nat (m - s) + nat s" using assms by simp
  then have "(2::int) ^ nat m = 2 ^ nat (m - s) * 2 ^ nat s" by (simp add: power_add [symmetric])
  then have "(2::int) ^ nat m div 2 ^ nat s = 2 ^ nat (m - s)" by simp
  with assms show ?thesis by (simp add: shr_def)
qed

lemma cu_pow3: "cu x = x ^ 3"
  by (simp add: cu_def power3_eq_cube)

lemma switchData_reject:
  assumes "block_wf b h" and "buffer_wf b h" and "\<not> ratification_condition b"
  shows "switchData b h = Some (False, b, h)"
proof -
  have s: "shl1 (buffer_scale b) = Some (2 ^ nat (buffer_scale b))"
    "shl1 (current_scale b) = Some (2 ^ nat (current_scale b))"
    using assms(1,2) by (auto simp: block_wf_def buffer_wf_def intro!: shl1_Some)
  show ?thesis
    using assms(3) s by (auto simp: switchData_def ratification_condition_def observed_volume_condition_def cu_pow3)
qed

lemma switchData_commit_spec:
  assumes "shr (BlockSize b1) (buffer_scale b1) = Some sz"
    and "deref h1 (buffer_data b1) = Some arr"
    and "int (length arr) = cu sz"
  shows "switchData_commit b1 h1 =
         Some (True,
               b1\<lparr>current_scale := buffer_scale b1, min_scale := buffer_scale b1,
                  curr_data := buffer_data b1, curr_integr_count := buffer_integr_count b1,
                  curr_observed_count :=
                    buffer_observed_count b1 + int (length (filter unobserved_weighted arr)),
                  buffer_data := 0, buffer_scale := - 1,
                  buffer_integr_count := 0, buffer_observed_count := 0\<rparr>,
               heap_store h1 (buffer_data b1) (map mark_voxel arr))"
proof -
  have n: "nat (cu sz) = length arr" using assms(3) by linarith
  show ?thesis
    using assms(1) mark_observed_loop_all [OF assms(2), of "buffer_observed_count b1"]
    by (simp add: switchData_commit_def n Let_def resetBufferCount_def)
qed

lemma switchData_accept:
  assumes "block_wf b h" and "buffer_wf b h" and "ratification_condition b"
  shows "switchData b h =
           do {
             (b1, h1) \<leftarrow> (if buffer_scale b < current_scale b then switchData_grow b h
                           else deleteUpTo (buffer_scale b) b h);
             switchData_commit b1 h1
           }"
proof -
  have s: "shl1 (buffer_scale b) = Some (2 ^ nat (buffer_scale b))"
    "shl1 (current_scale b) = Some (2 ^ nat (current_scale b))"
    using assms(1,2) by (auto simp: block_wf_def buffer_wf_def intro!: shl1_Some)
  show ?thesis
    using assms(3) s by (auto simp: switchData_def ratification_condition_def observed_volume_condition_def cu_pow3)
qed

lemma switchData_grow_spec:
  assumes wf: "block_wf b h" and bf: "buffer_wf b h" and finer: "buffer_scale b < current_scale b"
  shows "\<exists>bmin bmax h1. switchData_grow b h =
            Some (b\<lparr>block_data := block_data b @ [buffer_data b], block_min_data := bmin,
                    block_max_data := bmax\<rparr>, h1)
          \<and> cells h1 (buffer_data b) = cells h (buffer_data b)"
proof -
  let ?n = "cu (2 ^ nat (max_scale b - (buffer_scale b + 1)))"
  let ?i = "max_scale b - (buffer_scale b + 1)"
  have bs: "0 \<le> buffer_scale b" "buffer_scale b + 1 \<le> max_scale b" "max_scale b < 31"
    "BlockSize b = 2 ^ nat (max_scale b)" "min_scale b - 2 \<le> buffer_scale b"
    "buffer_data b < brk h"
    and len: "int (length (block_data b)) = max_scale b - min_scale b + 1"
    "length (block_min_data b) = length (block_data b)"
    "length (block_max_data b) = length (block_data b)"
    using wf bf finer by (auto simp: block_wf_def buffer_wf_def)
  have brk0: "brk h \<noteq> 0" using bs by auto
  have sh: "shr (BlockSize b) (buffer_scale b + 1) = Some (2 ^ nat ?i)"
    using bs shr_pow2 [of "buffer_scale b + 1" "max_scale b"] by simp
  have n0: "0 \<le> ?n" by (simp add: cu_pow3)
  have idx: "0 \<le> ?i" "?i < int (length (block_min_data b @ [buffer_data b]))"
    "?i < int (length (block_max_data b @ [buffer_data b]))"
    using bs len by auto
  let ?h1 = "h\<lparr>cells := (cells h)(brk h \<mapsto> replicate (nat ?n) DataType_init), brk := Suc (brk h)\<rparr>"
  let ?h2 = "?h1\<lparr>cells := (cells ?h1)(brk ?h1 \<mapsto> replicate (nat ?n) DataType_init),
                 brk := Suc (brk ?h1)\<rparr>"
  have na: "new_array ?n h = Some (brk h, ?h1)" "new_array ?n ?h1 = Some (brk ?h1, ?h2)"
    using n0 brk0 by (simp_all add: new_array_def)
  have "switchData_grow b h =
          Some (b\<lparr>block_data := block_data b @ [buffer_data b],
                  block_min_data := (block_min_data b @ [buffer_data b])[nat ?i := brk h],
                  block_max_data := (block_max_data b @ [buffer_data b])[nat ?i := brk ?h1]\<rparr>, ?h2)"
    using sh na idx by (simp add: switchData_grow_def vec_set_def Let_def)
  moreover have "cells ?h2 (buffer_data b) = cells h (buffer_data b)"
    using bs by simp
  ultimately show ?thesis by blast
qed

lemma switchData_shrink_spec:
  assumes wf: "block_wf b h" and bf: "buffer_wf b h" and coarser: "\<not> buffer_scale b < current_scale b"
  shows "\<exists>bmin bmax h1. deleteUpTo (buffer_scale b) b h =
            Some (b\<lparr>block_data := take (nat (max_scale b - buffer_scale b + 1)) (block_data b),
                    block_min_data := bmin, block_max_data := bmax,
                    min_scale := buffer_scale b\<rparr>, h1)
          \<and> cells h1 (buffer_data b) = cells h (buffer_data b)"
proof (cases "min_scale b < buffer_scale b")
  case True
  have hi: "buffer_scale b \<le> max_scale b" and at: "vec_at (block_data b) (max_scale b - buffer_scale b) = Some (buffer_data b)"
    using bf coarser by (auto simp: buffer_wf_def)
  from deleteUpTo_spec [OF wf True hi]
  obtain h1 where
    r: "deleteUpTo (buffer_scale b) b h =
            Some (b\<lparr>block_data := take (nat (max_scale b - buffer_scale b + 1)) (block_data b),
                    block_min_data := take (nat (max_scale b - buffer_scale b)) (block_min_data b)
                                        @ [block_data b ! nat (max_scale b - buffer_scale b)],
                    block_max_data := take (nat (max_scale b - buffer_scale b)) (block_max_data b)
                                        @ [block_data b ! nat (max_scale b - buffer_scale b)],
                    min_scale := buffer_scale b\<rparr>, h1)"
    and k: "\<forall>a \<in> set (take (nat (max_scale b - buffer_scale b + 1)) (block_data b)). cells h1 a = cells h a"
    by blast
  have "buffer_data b = block_data b ! nat (max_scale b - buffer_scale b)"
    "nat (max_scale b - buffer_scale b) < length (block_data b)"
    using at by (auto simp: vec_at_def split: if_splits)
  then have "buffer_data b \<in> set (take (nat (max_scale b - buffer_scale b + 1)) (block_data b))"
    using hi by (auto simp: in_set_conv_nth intro!: exI [of _ "nat (max_scale b - buffer_scale b)"])
  with k have "cells h1 (buffer_data b) = cells h (buffer_data b)" by blast
  with r show ?thesis by blast
next
  case False
  have m: "0 \<le> min_scale b" "min_scale b \<le> current_scale b"
    "int (length (block_data b)) = max_scale b - min_scale b + 1"
    using wf by (auto simp: block_wf_def)
  have bs: "0 \<le> buffer_scale b" "buffer_scale b \<le> max_scale b"
    using bf by (auto simp: buffer_wf_def)
  have eq: "buffer_scale b = min_scale b" using False coarser m by linarith
  have "deleteUpTo (buffer_scale b) b h = Some (b, h)"
    using False bs by (simp add: deleteUpTo_def)
  moreover have "b = b\<lparr>block_data := take (nat (max_scale b - buffer_scale b + 1)) (block_data b),
                    block_min_data := block_min_data b, block_max_data := block_max_data b,
                    min_scale := buffer_scale b\<rparr>"
    using eq m by simp
  ultimately show ?thesis by metis
qed

text \<open>
  Claim C2. For a well-formed block with an active buffer, \<open>switchData\<close> returns \<open>true\<close> exactly
  when the buffer was integrated at least 20 times and its observed volume reaches 0.9 of the
  current one. It then makes the buffer the current data: the mean pyramid grows by the buffer
  array (finer buffer) or is truncated to end with it (coarser buffer), every buffer voxel with
  positive weight that was not observed is marked observed and counted, the current scale and
  counters take the buffer's values and the buffer is reset. Otherwise it returns \<open>false\<close> and
  the block and its arrays are as before.
\<close>

theorem switchData_ratification:
  assumes wf: "block_wf b h" and bf: "buffer_wf b h"
  shows "(\<not> ratification_condition b \<longrightarrow> switchData b h = Some (False, b, h))
       \<and> (ratification_condition b \<longrightarrow>
            (\<exists>b' h' arr.
               switchData b h = Some (True, b', h')
             \<and> cells h (buffer_data b) = Some arr
             \<and> cells h' (buffer_data b) = Some (map mark_voxel arr)
             \<and> current_scale b' = buffer_scale b
             \<and> min_scale b' = buffer_scale b
             \<and> curr_data b' = buffer_data b
             \<and> block_data b' =
                 (if buffer_scale b < current_scale b then block_data b @ [buffer_data b]
                  else take (nat (max_scale b - buffer_scale b + 1)) (block_data b))
             \<and> last (block_data b') = buffer_data b
             \<and> curr_integr_count b' = buffer_integr_count b
             \<and> curr_observed_count b' =
                 buffer_observed_count b + int (length (filter unobserved_weighted arr))
             \<and> buffer_data b' = 0 \<and> buffer_scale b' = - 1
             \<and> buffer_integr_count b' = 0 \<and> buffer_observed_count b' = 0))"
proof (intro conjI impI)
  assume "\<not> ratification_condition b"
  then show "switchData b h = Some (False, b, h)"
    using wf bf by (rule switchData_reject [rotated 2])
next
  assume rc: "ratification_condition b"
  let ?buf = "buffer_data b" and ?i = "nat (max_scale b - buffer_scale b)"
  have bs: "0 \<le> buffer_scale b" "buffer_scale b \<le> max_scale b" "max_scale b < 31"
    "BlockSize b = 2 ^ nat (max_scale b)"
    using wf bf by (auto simp: block_wf_def buffer_wf_def)
  have sh: "shr (BlockSize b) (buffer_scale b) = Some (2 ^ ?i)"
    using bs shr_pow2 [of "buffer_scale b" "max_scale b"] by simp
  \<comment> \<open>the buffer array and its size\<close>
  have "\<exists>arr. ?buf \<noteq> 0 \<and> cells h ?buf = Some arr \<and> int (length arr) = cu (2 ^ ?i)
           \<and> (\<not> buffer_scale b < current_scale b \<longrightarrow>
                 ?i < length (block_data b) \<and> ?buf = block_data b ! ?i)"
  proof (cases "buffer_scale b < current_scale b")
    case True
    then show ?thesis using bf by (auto simp: buffer_wf_def)
  next
    case False
    then have at: "vec_at (block_data b) (max_scale b - buffer_scale b) = Some ?buf"
      using bf by (simp add: buffer_wf_def)
    then have i: "?i < length (block_data b)" "?buf = block_data b ! ?i"
      by (auto simp: vec_at_def split: if_splits)
    then have "?buf \<in> set (arrays_of b)" by (simp add: arrays_of_def)
    then have "?buf \<noteq> 0" using wf by (auto simp: block_wf_def)
    moreover obtain arr where "cells h ?buf = Some arr" "int (length arr) = cu (2 ^ ?i)"
      using wf i by (auto simp: block_wf_def)
    ultimately show ?thesis using i False by blast
  qed
  then obtain arr where
    buf0: "?buf \<noteq> 0" and arr: "cells h ?buf = Some arr" and larr: "int (length arr) = cu (2 ^ ?i)"
    and bufidx: "\<not> buffer_scale b < current_scale b \<Longrightarrow>
                   ?i < length (block_data b) \<and> ?buf = block_data b ! ?i"
    by blast
  \<comment> \<open>the pyramid after the switch\<close>
  define bd' where "bd' = (if buffer_scale b < current_scale b then block_data b @ [?buf]
              else take (nat (max_scale b - buffer_scale b + 1)) (block_data b))"
  define step where "step = (if buffer_scale b < current_scale b then switchData_grow b h
           else deleteUpTo (buffer_scale b) b h)"
  have "\<exists>bmin bmax ms h1.
          step = Some (b\<lparr>block_data := bd', block_min_data := bmin, block_max_data := bmax,
                    min_scale := ms\<rparr>, h1)
          \<and> cells h1 ?buf = cells h ?buf"
  proof (cases "buffer_scale b < current_scale b")
    case True
    from switchData_grow_spec [OF wf bf True]
    obtain bmin bmax h1 where
      g: "switchData_grow b h =
            Some (b\<lparr>block_data := block_data b @ [?buf], block_min_data := bmin,
                    block_max_data := bmax\<rparr>, h1)"
      and k: "cells h1 ?buf = cells h ?buf" by blast
    have "step = Some (b\<lparr>block_data := bd', block_min_data := bmin, block_max_data := bmax,
                    min_scale := min_scale b\<rparr>, h1)"
      using g True by (simp add: step_def bd'_def)
    with k show ?thesis by blast
  next
    case False
    from switchData_shrink_spec [OF wf bf False]
    obtain bmin bmax h1 where
      g: "deleteUpTo (buffer_scale b) b h =
            Some (b\<lparr>block_data := take (nat (max_scale b - buffer_scale b + 1)) (block_data b),
                    block_min_data := bmin, block_max_data := bmax,
                    min_scale := buffer_scale b\<rparr>, h1)"
      and k: "cells h1 ?buf = cells h ?buf" by blast
    have "step = Some (b\<lparr>block_data := bd', block_min_data := bmin, block_max_data := bmax,
                    min_scale := buffer_scale b\<rparr>, h1)"
      using g False by (simp add: step_def bd'_def)
    with k show ?thesis by blast
  qed
  then obtain bmin bmax ms h1 where
    st: "step = Some (b\<lparr>block_data := bd', block_min_data := bmin, block_max_data := bmax,
                    min_scale := ms\<rparr>, h1)"
    and keep: "cells h1 ?buf = cells h ?buf"
    by blast
  define b1 where "b1 = b\<lparr>block_data := bd', block_min_data := bmin, block_max_data := bmax,
               min_scale := ms\<rparr>"
  have b1: "buffer_data b1 = ?buf" "buffer_scale b1 = buffer_scale b" "BlockSize b1 = BlockSize b"
    "buffer_integr_count b1 = buffer_integr_count b"
    "buffer_observed_count b1 = buffer_observed_count b" "block_data b1 = bd'"
    by (simp_all add: b1_def)
  have c1: "shr (BlockSize b1) (buffer_scale b1) = Some (2 ^ ?i)" using sh b1 by simp
  have c2: "deref h1 (buffer_data b1) = Some arr" using keep arr buf0 b1 by (simp add: deref_def)
  note commit = switchData_commit_spec [OF c1 c2 larr]
  have "switchData b h = do { (b1, h1) \<leftarrow> step; switchData_commit b1 h1 }"
    unfolding step_def by (rule switchData_accept [OF wf bf rc])
  also have "\<dots> = switchData_commit b1 h1" using st by (simp add: b1_def)
  finally have run: "switchData b h =
      Some (True,
            b1\<lparr>current_scale := buffer_scale b1, min_scale := buffer_scale b1,
                curr_data := buffer_data b1, curr_integr_count := buffer_integr_count b1,
                curr_observed_count :=
                  buffer_observed_count b1 + int (length (filter unobserved_weighted arr)),
                buffer_data := 0, buffer_scale := - 1,
                buffer_integr_count := 0, buffer_observed_count := 0\<rparr>,
            heap_store h1 (buffer_data b1) (map mark_voxel arr))"
    using commit by simp
  have lst: "last bd' = ?buf"
  proof (cases "buffer_scale b < current_scale b")
    case True
    then show ?thesis by (simp add: bd'_def)
  next
    case False
    from bufidx [OF False] have i: "?i < length (block_data b)" "?buf = block_data b ! ?i" by auto
    have "nat (max_scale b - buffer_scale b + 1) = Suc ?i" using bs by simp
    then have "take (nat (max_scale b - buffer_scale b + 1)) (block_data b)
                 = take ?i (block_data b) @ [block_data b ! ?i]"
      using i by (simp add: take_Suc_conv_app_nth)
    then show ?thesis using False i by (simp add: bd'_def)
  qed
  show "\<exists>b' h' arr.
               switchData b h = Some (True, b', h')
             \<and> cells h (buffer_data b) = Some arr
             \<and> cells h' (buffer_data b) = Some (map mark_voxel arr)
             \<and> current_scale b' = buffer_scale b
             \<and> min_scale b' = buffer_scale b
             \<and> curr_data b' = buffer_data b
             \<and> block_data b' =
                 (if buffer_scale b < current_scale b then block_data b @ [buffer_data b]
                  else take (nat (max_scale b - buffer_scale b + 1)) (block_data b))
             \<and> last (block_data b') = buffer_data b
             \<and> curr_integr_count b' = buffer_integr_count b
             \<and> curr_observed_count b' =
                 buffer_observed_count b + int (length (filter unobserved_weighted arr))
             \<and> buffer_data b' = 0 \<and> buffer_scale b' = - 1
             \<and> buffer_integr_count b' = 0 \<and> buffer_observed_count b' = 0"
    apply (rule exI, rule exI, rule exI [of _ arr])
    apply (rule conjI, rule run)
    using arr lst b1 apply (simp add: bd'_def)
    done
qed

lemma incrBufferIntegrCount_eval:
  assumes "0 \<le> buffer_scale b" "buffer_scale b < 31" "0 \<le> current_scale b" "current_scale b < 31"
  shows "incrBufferIntegrCount do_increment b =
           Some (if do_increment \<or> observed_volume_condition b
                 then b\<lparr>buffer_integr_count := buffer_integr_count b + 1\<rparr> else b)"
  using assms
  by (simp add: incrBufferIntegrCount_def shl1_Some observed_volume_condition_def cu_pow3)

lemma repeat_incr:
  assumes "0 \<le> buffer_scale b" "buffer_scale b < 31" "0 \<le> current_scale b" "current_scale b < 31"
    and "observed_volume_condition b"
  shows "repeat_call n (incrBufferIntegrCount False) b =
           Some (b\<lparr>buffer_integr_count := buffer_integr_count b + int n\<rparr>)"
  using assms
proof (induction n arbitrary: b)
  case 0
  then show ?case by simp
next
  case (Suc n)
  let ?b1 = "b\<lparr>buffer_integr_count := buffer_integr_count b + 1\<rparr>"
  have one: "incrBufferIntegrCount False b = Some ?b1"
    using Suc.prems by (simp add: incrBufferIntegrCount_eval)
  have c: "observed_volume_condition ?b1"
    using Suc.prems(5) by (simp add: observed_volume_condition_def)
  have "repeat_call n (incrBufferIntegrCount False) ?b1 =
          Some (?b1\<lparr>buffer_integr_count := buffer_integr_count ?b1 + int n\<rparr>)"
    using Suc.prems by (intro Suc.IH) (simp_all add: c)
  then show ?case using one by (simp add: algebra_simps)
qed

text \<open>
  Claim C10. With an active buffer, \<open>incrBufferIntegrCount\<close> adds one to \<open>buffer_integr_count\<close>
  when \<open>do_increment\<close> holds and also when it does not but the observed volume of the buffer
  already reaches 0.9 of the current one; otherwise the block is unchanged. So \<open>n\<close> calls with
  \<open>do_increment = false\<close> raise the count by \<open>n\<close> while that condition holds.
\<close>

theorem incrBufferIntegrCount_counts:
  assumes "0 \<le> buffer_scale b" "buffer_scale b < 31" "0 \<le> current_scale b" "current_scale b < 31"
  shows "(do_increment \<or> observed_volume_condition b \<longrightarrow>
            incrBufferIntegrCount do_increment b =
              Some (b\<lparr>buffer_integr_count := buffer_integr_count b + 1\<rparr>))
       \<and> (\<not> do_increment \<and> \<not> observed_volume_condition b \<longrightarrow>
            incrBufferIntegrCount do_increment b = Some b)
       \<and> (observed_volume_condition b \<longrightarrow>
            repeat_call n (incrBufferIntegrCount False) b =
              Some (b\<lparr>buffer_integr_count := buffer_integr_count b + int n\<rparr>))"
  using incrBufferIntegrCount_eval [OF assms] repeat_incr [OF assms] by simp

lemma maxData_finer_than_allocated:
  assumes "0 \<le> scale" and "scale < min_scale b" and "min_scale b \<le> max_scale b"
    and "max_scale b < 31"
    and "int (length (block_data b)) = max_scale b - min_scale b + 1"
  shows "BlockOcc_maxData_at_scale b h voxel_coord scale = Some (init_data b)"
proof -
  have "max_scale b - (int (length (block_data b)) - 1) = min_scale b" using assms by simp
  moreover have "size_t_of (min_scale b) = min_scale b" "size_t_of scale = scale"
    using assms by (simp_all add: size_t_of_def)
  ultimately show ?thesis using assms(2) by (simp add: BlockOcc_maxData_at_scale_def)
qed

lemma tdiv_nonneg: "0 \<le> a \<Longrightarrow> 0 < b \<Longrightarrow> tdiv a b = a div b"
  by (cases "a = 0") (simp_all add: tdiv_def)

lemma int_div_less:
  fixes x k n :: int
  assumes "0 < k" and "x < n * k"
  shows "x div k < n"
proof (rule ccontr)
  assume "\<not> x div k < n"
  then have "n \<le> x div k" by simp
  then have "n * k \<le> (x div k) * k" using assms(1) by (simp add: mult_right_mono)
  moreover have "0 \<le> x mod k" using assms(1) by simp
  moreover have "(x div k) * k + x mod k = x" by simp
  ultimately show False using assms(2) by linarith
qed

lemma offset_bound:
  assumes "0 \<le> a" "a \<le> m" "c \<le> v" "v < c + 2 ^ nat m"
  shows "0 \<le> tdiv (v - c) (2 ^ nat a) \<and> tdiv (v - c) (2 ^ nat a) < 2 ^ nat (m - a)"
proof -
  have e: "(2::int) ^ nat m = 2 ^ nat (m - a) * 2 ^ nat a"
    using assms by (simp add: power_add [symmetric] nat_diff_distrib' nat_le_iff)
  have "tdiv (v - c) (2 ^ nat a) = (v - c) div 2 ^ nat a"
    using assms by (intro tdiv_nonneg) auto
  moreover have "0 \<le> (v - c) div 2 ^ nat a" using assms by (simp add: pos_imp_zdiv_nonneg_iff)
  moreover have "(v - c) div 2 ^ nat a < 2 ^ nat (m - a)"
    using assms e by (intro int_div_less) auto
  ultimately show ?thesis by simp
qed

lemma linear_index_bound:
  fixes x y z S :: int
  assumes "0 \<le> x" "x < S" "0 \<le> y" "y < S" "0 \<le> z" "z < S"
  shows "0 \<le> x + y * S + z * sq S \<and> x + y * S + z * sq S < cu S"
proof -
  have S: "0 < S" using assms by linarith
  have a: "y * S \<le> (S - 1) * S" using assms S by (intro mult_right_mono) auto
  have b: "z * sq S \<le> (S - 1) * sq S" using assms S by (intro mult_right_mono) (auto simp: sq_def)
  have "x + y * S + z * sq S \<le> (S - 1) + (S - 1) * S + (S - 1) * sq S"
    using assms a b by linarith
  also have "\<dots> = cu S - 1" by (simp add: cu_def sq_def algebra_simps)
  finally have "x + y * S + z * sq S < cu S" by simp
  moreover have "0 \<le> x + y * S + z * sq S" using assms S by (simp add: sq_def)
  ultimately show ?thesis by simp
qed

lemma voxel_index_in_range:
  assumes "0 \<le> a" "a \<le> m" "inside_block c (2 ^ nat m) v"
  shows "\<exists>x y z. vdiv (vsub v c) (2 ^ nat a) = (x, y, z)
           \<and> 0 \<le> x + y * 2 ^ nat (m - a) + z * sq (2 ^ nat (m - a))
           \<and> x + y * 2 ^ nat (m - a) + z * sq (2 ^ nat (m - a)) < cu (2 ^ nat (m - a))"
proof -
  obtain cx cy cz where c: "c = (cx, cy, cz)" by (cases c) auto
  obtain vx vy vz where v: "v = (vx, vy, vz)" by (cases v) auto
  have b: "cx \<le> vx" "vx < cx + 2 ^ nat m" "cy \<le> vy" "vy < cy + 2 ^ nat m"
    "cz \<le> vz" "vz < cz + 2 ^ nat m"
    using assms(3) by (simp_all add: inside_block_def c v)
  note ox = offset_bound [OF assms(1,2) b(1,2)]
  note oy = offset_bound [OF assms(1,2) b(3,4)]
  note oz = offset_bound [OF assms(1,2) b(5,6)]
  have "vdiv (vsub v c) (2 ^ nat a)
          = (tdiv (vx - cx) (2 ^ nat a), tdiv (vy - cy) (2 ^ nat a), tdiv (vz - cz) (2 ^ nat a))"
    by (simp add: vdiv_def vsub_def c v)
  then show ?thesis
    using linear_index_bound [of "tdiv (vx - cx) (2 ^ nat a)" "2 ^ nat (m - a)"
        "tdiv (vy - cy) (2 ^ nat a)" "tdiv (vz - cz) (2 ^ nat a)"] ox oy oz
    by simp
qed

lemma BlockTSDF_data_eq:
  "BlockTSDF_data tb vc sd =
     map_option (\<lambda>d. (d, max sd (tsdf_block.current_scale tb)))
       (BlockTSDF_data_at_scale tb vc (max sd (tsdf_block.current_scale tb)))"
  by (simp add: BlockTSDF_data_def BlockTSDF_data_at_scale_def Let_def
      split: Option.bind_split)

lemma voxel_offset_vdiv:
  assumes "0 \<le> a" "a \<le> m" "inside_block c (2 ^ nat m) v"
  shows "vdiv (vsub v c) (2 ^ nat a) = voxel_offset c v a"
proof -
  obtain cx cy cz where c: "c = (cx, cy, cz)" by (cases c) auto
  obtain vx vy vz where v: "v = (vx, vy, vz)" by (cases v) auto
  have b: "0 \<le> vx - cx" "0 \<le> vy - cy" "0 \<le> vz - cz"
    using assms(3) by (simp_all add: inside_block_def c v)
  have p: "(0::int) < 2 ^ nat a" by simp
  show ?thesis
    unfolding vdiv_def vsub_def voxel_offset_def c v
    using tdiv_nonneg [OF b(1) p] tdiv_nonneg [OF b(2) p] tdiv_nonneg [OF b(3) p] by simp
qed

lemma voxel_index_stored:
  assumes "0 \<le> a" "a \<le> m" "inside_block c (2 ^ nat m) v"
  shows "\<exists>x y z. vdiv (vsub v c) (2 ^ nat a) = (x, y, z)
           \<and> x + y * 2 ^ nat (m - a) + z * sq (2 ^ nat (m - a))
               = linear_index (voxel_offset c v a) (2 ^ nat (m - a))
           \<and> 0 \<le> linear_index (voxel_offset c v a) (2 ^ nat (m - a))
           \<and> linear_index (voxel_offset c v a) (2 ^ nat (m - a)) < cu (2 ^ nat (m - a))"
proof -
  from voxel_index_in_range [OF assms] obtain x y z where
    i: "vdiv (vsub v c) (2 ^ nat a) = (x, y, z)"
    "0 \<le> x + y * 2 ^ nat (m - a) + z * sq (2 ^ nat (m - a))"
    "x + y * 2 ^ nat (m - a) + z * sq (2 ^ nat (m - a)) < cu (2 ^ nat (m - a))"
    by blast
  have "voxel_offset c v a = (x, y, z)" using voxel_offset_vdiv [OF assms] i(1) by simp
  hence "linear_index (voxel_offset c v a) (2 ^ nat (m - a))
      = x + y * 2 ^ nat (m - a) + z * sq (2 ^ nat (m - a))"
    by (simp add: linear_index_def sq_def)
  thus ?thesis using i by auto
qed

lemma BlockTSDF_data_defined:
  assumes wf: "tsdf_block_wf tb" and sd: "sd \<le> tsdf_block.max_scale tb"
    and ins: "inside_block (tsdf_block.coord tb) (2 ^ nat (tsdf_block.max_scale tb)) vc"
  shows "BlockTSDF_data tb vc sd
           = Some (TSDF_stored tb vc (max sd (tsdf_block.current_scale tb)),
                   max sd (tsdf_block.current_scale tb))"
proof -
  define a where "a = max sd (tsdf_block.current_scale tb)"
  let ?m = "tsdf_block.max_scale tb"
  have a: "0 \<le> a" "a \<le> ?m" "?m < 31" using wf sd by (auto simp: tsdf_block_wf_def a_def)
  from wf a obtain off where
    t: "vec_at (size_at_scales tb) a = Some (2 ^ nat (?m - a))"
    "vec_at (scale_offsets tb) a = Some off" "0 \<le> off"
    "off + cu (2 ^ nat (?m - a)) \<le> int (length (tsdf_block.block_data tb))"
    unfolding tsdf_block_wf_def by blast
  have off: "off = scale_offsets tb ! nat a"
    using t(2) unfolding vec_at_def by (auto split: if_splits)
  from voxel_index_stored [OF a(1,2) ins] obtain x y z where
    i: "vdiv (vsub vc (tsdf_block.coord tb)) (2 ^ nat a) = (x, y, z)"
    "x + y * 2 ^ nat (?m - a) + z * sq (2 ^ nat (?m - a))
       = linear_index (voxel_offset (tsdf_block.coord tb) vc a) (2 ^ nat (?m - a))"
    "0 \<le> linear_index (voxel_offset (tsdf_block.coord tb) vc a) (2 ^ nat (?m - a))"
    "linear_index (voxel_offset (tsdf_block.coord tb) vc a) (2 ^ nat (?m - a))
       < cu (2 ^ nat (?m - a))"
    by blast
  define li where "li = linear_index (voxel_offset (tsdf_block.coord tb) vc a) (2 ^ nat (?m - a))"
  have sh: "shl1 a = Some (2 ^ nat a)" using a by (intro shl1_Some) auto
  have "BlockTSDF_getVoxelIdx tb vc a
             = Some (off + x + y * 2 ^ nat (?m - a) + z * sq (2 ^ nat (?m - a)))"
    using a sh t i(1) by (simp add: BlockTSDF_getVoxelIdx_def)
  hence g: "BlockTSDF_getVoxelIdx tb vc a = Some (off + li)"
    using i(2) unfolding li_def by (simp add: algebra_simps)
  have r: "0 \<le> off + li" "off + li < int (length (tsdf_block.block_data tb))"
    using t(3,4) i(3,4) unfolding li_def by auto
  have d: "BlockTSDF_data_idx tb (off + li) = Some (tsdf_block.block_data tb ! nat (off + li))"
    using r by (simp add: BlockTSDF_data_idx_def)
  have "BlockTSDF_data tb vc sd = Some (tsdf_block.block_data tb ! nat (off + li), a)"
    using g d by (simp add: BlockTSDF_data_def Let_def a_def [symmetric])
  thus ?thesis
    unfolding TSDF_stored_def a_def [symmetric] li_def off by simp
qed

lemma block_wf_occ_data_wf:
  assumes "block_wf b h"
  shows "occ_data_wf b h"
proof -
  have "block_data b ! i \<noteq> 0" if "i < length (block_data b)" for i
  proof -
    from that have "block_data b ! i \<in> set (arrays_of b)" by (simp add: arrays_of_def)
    thus ?thesis using assms by (auto simp: block_wf_def)
  qed
  thus ?thesis using assms unfolding block_wf_def occ_data_wf_def by auto
qed

lemma BlockOcc_data_defined:
  assumes wf: "occ_data_wf b h" and sd: "sd \<le> max_scale b"
    and ins: "inside_block (coord b) (BlockSize b) vc"
  shows "BlockOcc_data b h vc sd =
           map_option (\<lambda>d. (d, max sd (current_scale b)))
             (BlockOcc_data_at_scale b h vc (max sd (current_scale b)))
       \<and> BlockOcc_data b h vc sd
           = Some (Occ_stored b h vc (max sd (current_scale b)), max sd (current_scale b))"
proof -
  define a where "a = max sd (current_scale b)"
  define i where "i = nat (max_scale b - a)"
  let ?m = "max_scale b"
  have m: "0 \<le> current_scale b" "current_scale b \<le> ?m" "?m < 31"
    "BlockSize b = 2 ^ nat ?m" "?m - current_scale b < int (length (block_data b))"
    "int (length (block_data b)) \<le> ?m + 1"
    using wf by (auto simp: occ_data_wf_def)
  have a: "0 \<le> a" "a \<le> ?m" "current_scale b \<le> a" "a < 31" using m sd by (auto simp: a_def)
  have il: "i < length (block_data b)" using m a unfolding i_def by linarith
  from wf il obtain arr where
    p0: "block_data b ! i \<noteq> 0"
    and arr: "cells h (block_data b ! i) = Some arr" "int (length arr) = cu (2 ^ i)"
    unfolding occ_data_wf_def by blast
  have va: "vec_at (block_data b) (?m - a) = Some (block_data b ! i)"
    using il a by (simp add: vec_at_def i_def)
  have dr: "deref h (block_data b ! i) = Some arr" using p0 arr by (simp add: deref_def)
  have sh: "shl1 a = Some (2 ^ nat a)" using a by (intro shl1_Some)
  have sr: "shr (BlockSize b) a = Some (2 ^ i)"
    using a m shr_pow2 [of a ?m] by (simp add: i_def)
  have ins': "inside_block (coord b) (2 ^ nat ?m) vc" using ins m by simp
  from voxel_index_stored [OF a(1,2) ins'] obtain x y z where
    xyz: "vdiv (vsub vc (coord b)) (2 ^ nat a) = (x, y, z)"
    and eq: "x + y * 2 ^ i + z * sq (2 ^ i) = linear_index (voxel_offset (coord b) vc a) (2 ^ i)"
    and lo: "0 \<le> linear_index (voxel_offset (coord b) vc a) (2 ^ i)"
    and hi: "linear_index (voxel_offset (coord b) vc a) (2 ^ i) < cu (2 ^ i)"
    unfolding i_def by blast
  define idx where "idx = linear_index (voxel_offset (coord b) vc a) (2 ^ i)"
  have g: "BlockOcc_getVoxelIdx b vc a = Some idx"
    using a(1,2) sh sr xyz eq by (simp add: BlockOcc_getVoxelIdx_def idx_def)
  have el: "vec_at arr idx = Some (arr ! nat idx)"
    using lo hi arr(2) by (simp add: vec_at_def idx_def)
  have d3: "BlockOcc_data b h vc sd = Some (arr ! nat idx, a)"
    using va g dr el by (simp add: BlockOcc_data_def Let_def a_def [symmetric])
  define finest where "finest = max_scale b - (int (length (block_data b)) - 1)"
  have fin: "0 \<le> finest" "finest \<le> a" using m a unfolding finest_def by auto
  have st: "size_t_of finest = finest" "size_t_of a = a"
    using fin a m by (simp_all add: size_t_of_def)
  have nb: "\<not> size_t_of (max_scale b - (int (length (block_data b)) - 1)) > size_t_of a"
    unfolding finest_def [symmetric] st using fin(2) by simp
  have d2: "BlockOcc_data_at_scale b h vc a = Some (arr ! nat idx)"
    unfolding BlockOcc_data_at_scale_def using nb sh sr va dr xyz el eq
    by (simp add: idx_def [symmetric])
  have stored: "Occ_stored b h vc a = arr ! nat idx"
    unfolding Occ_stored_def idx_def i_def [symmetric] using arr(1) by simp
  show ?thesis using d3 d2 stored unfolding a_def by simp
qed

lemma example_block_wf: "block_wf example_block example_heap"
  by (simp add: block_wf_def example_block_def example_heap_def arrays_of_def cu_def)

lemma example_buffer_wf: "buffer_wf example_block example_heap"
  by (simp add: buffer_wf_def example_block_def example_heap_def arrays_of_def cu_def)

lemma example_block_fine_wf: "block_wf example_block_fine example_heap_fine"
  by (auto simp add: block_wf_def example_block_fine_def example_heap_fine_def arrays_of_def cu_def
      less_Suc_eq)

lemma example_buffer_fine_wf: "buffer_wf example_block_fine example_heap_fine"
  by (simp add: buffer_wf_def example_block_fine_def example_heap_fine_def arrays_of_def cu_def
      vec_at_def)

lemma example_ratified: "ratification_condition example_block"
  by (simp add: ratification_condition_def observed_volume_condition_def example_block_def)

lemma example_fine_ratified: "ratification_condition example_block_fine"
  by (simp add: ratification_condition_def observed_volume_condition_def example_block_fine_def)

theorem switchData_ratification_witness:
  "(\<exists>b' h'. switchData example_block example_heap = Some (True, b', h')
       \<and> cells h' 2 = Some (replicate 8 \<lparr>occupancy = - 1, weight = 1, observed = True\<rparr>)
       \<and> current_scale b' = 0 \<and> curr_data b' = 2 \<and> block_data b' = [1, 2]
       \<and> curr_observed_count b' = 16 \<and> buffer_scale b' = - 1)
   \<and> (\<exists>b' h'. switchData example_block_fine example_heap_fine = Some (True, b', h')
       \<and> cells h' 1 = Some [\<lparr>occupancy = - 1, weight = 2, observed = True\<rparr>]
       \<and> current_scale b' = 1 \<and> curr_data b' = 1 \<and> block_data b' = [1]
       \<and> curr_observed_count b' = 2 \<and> buffer_scale b' = - 1)
   \<and> switchData (example_block\<lparr>buffer_integr_count := 19\<rparr>) example_heap
       = Some (False, example_block\<lparr>buffer_integr_count := 19\<rparr>, example_heap)"
proof -
  have w19: "block_wf (example_block\<lparr>buffer_integr_count := 19\<rparr>) example_heap"
    "buffer_wf (example_block\<lparr>buffer_integr_count := 19\<rparr>) example_heap"
    by (simp_all add: block_wf_def buffer_wf_def example_block_def example_heap_def
        arrays_of_def cu_def)
  have n19: "\<not> ratification_condition (example_block\<lparr>buffer_integr_count := 19\<rparr>)"
    by (simp add: ratification_condition_def)
  from switchData_ratification [OF example_block_wf example_buffer_wf] example_ratified
  obtain b' h' arr where
    "switchData example_block example_heap = Some (True, b', h')"
    "cells example_heap (buffer_data example_block) = Some arr"
    "cells h' (buffer_data example_block) = Some (map mark_voxel arr)"
    "current_scale b' = buffer_scale example_block"
    "curr_data b' = buffer_data example_block"
    "block_data b' = (if buffer_scale example_block < current_scale example_block
                      then block_data example_block @ [buffer_data example_block]
                      else take (nat (max_scale example_block - buffer_scale example_block + 1))
                             (block_data example_block))"
    "curr_observed_count b' =
       buffer_observed_count example_block + int (length (filter unobserved_weighted arr))"
    "buffer_scale b' = - 1"
    by blast
  then have one: "\<exists>b' h'. switchData example_block example_heap = Some (True, b', h')
       \<and> cells h' 2 = Some (replicate 8 \<lparr>occupancy = - 1, weight = 1, observed = True\<rparr>)
       \<and> current_scale b' = 0 \<and> curr_data b' = 2 \<and> block_data b' = [1, 2]
       \<and> curr_observed_count b' = 16 \<and> buffer_scale b' = - 1"
    by (auto simp: example_block_def example_heap_def mark_voxel_def unobserved_weighted_def)
  from switchData_ratification [OF example_block_fine_wf example_buffer_fine_wf]
    example_fine_ratified
  obtain b' h' arr where
    "switchData example_block_fine example_heap_fine = Some (True, b', h')"
    "cells example_heap_fine (buffer_data example_block_fine) = Some arr"
    "cells h' (buffer_data example_block_fine) = Some (map mark_voxel arr)"
    "current_scale b' = buffer_scale example_block_fine"
    "curr_data b' = buffer_data example_block_fine"
    "block_data b' = (if buffer_scale example_block_fine < current_scale example_block_fine
                      then block_data example_block_fine @ [buffer_data example_block_fine]
                      else take (nat (max_scale example_block_fine
                                       - buffer_scale example_block_fine + 1))
                             (block_data example_block_fine))"
    "curr_observed_count b' =
       buffer_observed_count example_block_fine
         + int (length (filter unobserved_weighted arr))"
    "buffer_scale b' = - 1"
    by blast
  then have two: "\<exists>b' h'. switchData example_block_fine example_heap_fine = Some (True, b', h')
       \<and> cells h' 1 = Some [\<lparr>occupancy = - 1, weight = 2, observed = True\<rparr>]
       \<and> current_scale b' = 1 \<and> curr_data b' = 1 \<and> block_data b' = [1]
       \<and> curr_observed_count b' = 2 \<and> buffer_scale b' = - 1"
    by (auto simp: example_block_fine_def example_heap_fine_def mark_voxel_def
        unobserved_weighted_def)
  from switchData_ratification [OF w19] n19
  have three: "switchData (example_block\<lparr>buffer_integr_count := 19\<rparr>) example_heap
       = Some (False, example_block\<lparr>buffer_integr_count := 19\<rparr>, example_heap)"
    by blast
  from one two three show ?thesis by blast
qed

theorem incrBufferIntegrCount_counts_witness:
  "incrBufferIntegrCount False example_block
     = Some (example_block\<lparr>buffer_integr_count := 21\<rparr>)
   \<and> incrBufferIntegrCount False (example_block\<lparr>buffer_observed_count := 0\<rparr>)
     = Some (example_block\<lparr>buffer_observed_count := 0\<rparr>)
   \<and> repeat_call 20 (incrBufferIntegrCount False) (example_block\<lparr>buffer_integr_count := 0\<rparr>)
     = Some (example_block\<lparr>buffer_integr_count := 20\<rparr>)"
proof -
  have c: "observed_volume_condition example_block"
    "observed_volume_condition (example_block\<lparr>buffer_integr_count := 0\<rparr>)"
    "\<not> observed_volume_condition (example_block\<lparr>buffer_observed_count := 0\<rparr>)"
    by (simp_all add: observed_volume_condition_def example_block_def)
  have s: "0 \<le> buffer_scale example_block" "buffer_scale example_block < 31"
    "0 \<le> current_scale example_block" "current_scale example_block < 31"
    by (simp_all add: example_block_def)
  have s0: "0 \<le> buffer_scale (example_block\<lparr>buffer_integr_count := 0\<rparr>)"
    "buffer_scale (example_block\<lparr>buffer_integr_count := 0\<rparr>) < 31"
    "0 \<le> current_scale (example_block\<lparr>buffer_integr_count := 0\<rparr>)"
    "current_scale (example_block\<lparr>buffer_integr_count := 0\<rparr>) < 31"
    "0 \<le> buffer_scale (example_block\<lparr>buffer_observed_count := 0\<rparr>)"
    "buffer_scale (example_block\<lparr>buffer_observed_count := 0\<rparr>) < 31"
    "0 \<le> current_scale (example_block\<lparr>buffer_observed_count := 0\<rparr>)"
    "current_scale (example_block\<lparr>buffer_observed_count := 0\<rparr>) < 31"
    by (simp_all add: example_block_def)
  show ?thesis
    using incrBufferIntegrCount_counts [OF s, of False 0] c
      incrBufferIntegrCount_counts [OF s0(5-8), of False 0]
      incrBufferIntegrCount_counts [OF s0(1-4), of False 20]
    by (simp add: example_block_def)
qed

text \<open>
  Claim C7. For both block flavours, \<open>data(voxel_coord, desired_scale)\<close> returns the datum
  stored for the voxel at the scale \<open>max desired_scale current_scale\<close> and reports that scale:
  in the TSDF block the element of the array at the offset of that scale plus the linear index
  of the voxel, in the occupancy block the element at the linear index of the voxel in the
  array of that scale. This is for a voxel of the block and a desired scale of at most
  \<open>max_scale\<close>, and the exact-scale accessor returns the same datum at that scale.
\<close>

theorem data_at_desired_scale:
  "BlockTSDF_data tb vc sd =
     map_option (\<lambda>d. (d, max sd (tsdf_block.current_scale tb)))
       (BlockTSDF_data_at_scale tb vc (max sd (tsdf_block.current_scale tb)))
   \<and> (tsdf_block_wf tb \<and> sd \<le> tsdf_block.max_scale tb
        \<and> inside_block (tsdf_block.coord tb) (2 ^ nat (tsdf_block.max_scale tb)) vc \<longrightarrow>
        BlockTSDF_data tb vc sd
          = Some (TSDF_stored tb vc (max sd (tsdf_block.current_scale tb)),
                  max sd (tsdf_block.current_scale tb)))
   \<and> (occ_data_wf b h \<and> sd' \<le> max_scale b \<and> inside_block (coord b) (BlockSize b) vc' \<longrightarrow>
        BlockOcc_data b h vc' sd' =
          map_option (\<lambda>d. (d, max sd' (current_scale b)))
            (BlockOcc_data_at_scale b h vc' (max sd' (current_scale b)))
        \<and> BlockOcc_data b h vc' sd'
            = Some (Occ_stored b h vc' (max sd' (current_scale b)), max sd' (current_scale b)))"
  using BlockTSDF_data_eq [of tb vc sd] BlockTSDF_data_defined [of tb sd vc]
    BlockOcc_data_defined [of b h sd' vc']
  by blast

lemma example_tsdf_block_wf: "tsdf_block_wf example_tsdf_block"
proof -
  have "\<exists>off. vec_at (size_at_scales example_tsdf_block) s
                  = Some (2 ^ nat (tsdf_block.max_scale example_tsdf_block - s))
              \<and> vec_at (scale_offsets example_tsdf_block) s = Some off \<and> 0 \<le> off
              \<and> off + cu (2 ^ nat (tsdf_block.max_scale example_tsdf_block - s))
                    \<le> int (length (tsdf_block.block_data example_tsdf_block))"
    if "0 \<le> s \<and> s \<le> tsdf_block.max_scale example_tsdf_block" for s
  proof -
    from that have "s = 0 \<or> s = 1" by (simp add: example_tsdf_block_def) presburger
    then show ?thesis
      by (auto simp: example_tsdf_block_def vec_at_def cu_def)
  qed
  then show ?thesis
    by (simp add: tsdf_block_wf_def) (simp add: example_tsdf_block_def)
qed

lemma example_block_voxels_wf: "occ_data_wf example_block_voxels example_heap_voxels"
  by (auto simp add: occ_data_wf_def example_block_voxels_def example_heap_voxels_def cu_def
      less_Suc_eq)

lemma example_block_unintegrated_wf:
  "occ_data_wf example_block_unintegrated example_heap_unintegrated"
  by (simp add: occ_data_wf_def example_block_unintegrated_def example_heap_unintegrated_def cu_def)

theorem data_at_desired_scale_witness:
  "BlockTSDF_data example_tsdf_block (9, 1, 0) 1 = Some (\<lparr>tsdf = 8 / 10, tsdf_data.weight = 18\<rparr>, 1)
   \<and> BlockTSDF_data example_tsdf_block (9, 1, 0) (- 3)
       = Some (\<lparr>tsdf = 3 / 10, tsdf_data.weight = 13\<rparr>, 0)
   \<and> BlockOcc_data example_block_voxels example_heap_voxels (5, 0, 1) 1
       = Some (\<lparr>occupancy = - 8, weight = 8, observed = True\<rparr>, 1)
   \<and> BlockOcc_data example_block_voxels example_heap_voxels (5, 0, 1) 0
       = Some (\<lparr>occupancy = - 5, weight = 1, observed = True\<rparr>, 0)
   \<and> BlockOcc_data example_block_unintegrated example_heap_unintegrated (5, 1, 7) 0
       = Some (\<lparr>occupancy = 0, weight = 0, observed = False\<rparr>, 3)"
proof -
  have i: "inside_block (tsdf_block.coord example_tsdf_block)
             (2 ^ nat (tsdf_block.max_scale example_tsdf_block)) (9, 1, 0)"
    "inside_block (coord example_block_voxels) (BlockSize example_block_voxels) (5, 0, 1)"
    "inside_block (coord example_block_unintegrated) (BlockSize example_block_unintegrated)
       (5, 1, 7)"
    by (simp_all add: inside_block_def example_tsdf_block_def example_block_voxels_def
        example_block_unintegrated_def)
  have s: "1 \<le> tsdf_block.max_scale example_tsdf_block"
    "- 3 \<le> tsdf_block.max_scale example_tsdf_block"
    "1 \<le> max_scale example_block_voxels" "0 \<le> max_scale example_block_voxels"
    "0 \<le> max_scale example_block_unintegrated"
    by (simp_all add: example_tsdf_block_def example_block_voxels_def
        example_block_unintegrated_def)
  note t1 = data_at_desired_scale [of example_tsdf_block "(9, 1, 0)" 1
      example_block_voxels example_heap_voxels 1 "(5, 0, 1)"]
  note t2 = data_at_desired_scale [of example_tsdf_block "(9, 1, 0)" "- 3"
      example_block_voxels example_heap_voxels 0 "(5, 0, 1)"]
  note t3 = data_at_desired_scale [of example_tsdf_block "(9, 1, 0)" 1
      example_block_unintegrated example_heap_unintegrated 0 "(5, 1, 7)"]
  have d: "TSDF_stored example_tsdf_block (9, 1, 0) 1 = \<lparr>tsdf = 8 / 10, tsdf_data.weight = 18\<rparr>"
    "TSDF_stored example_tsdf_block (9, 1, 0) 0 = \<lparr>tsdf = 3 / 10, tsdf_data.weight = 13\<rparr>"
    "Occ_stored example_block_voxels example_heap_voxels (5, 0, 1) 1
       = \<lparr>occupancy = - 8, weight = 8, observed = True\<rparr>"
    "Occ_stored example_block_voxels example_heap_voxels (5, 0, 1) 0
       = \<lparr>occupancy = - 5, weight = 1, observed = True\<rparr>"
    "Occ_stored example_block_unintegrated example_heap_unintegrated (5, 1, 7) 3
       = \<lparr>occupancy = 0, weight = 0, observed = False\<rparr>"
    by (simp_all add: TSDF_stored_def Occ_stored_def voxel_offset_def linear_index_def
        example_tsdf_block_def example_block_voxels_def example_heap_voxels_def
        example_block_unintegrated_def example_heap_unintegrated_def)
  have cs: "tsdf_block.current_scale example_tsdf_block = 0"
    "current_scale example_block_voxels = 0" "current_scale example_block_unintegrated = 3"
    by (simp_all add: example_tsdf_block_def example_block_voxels_def
        example_block_unintegrated_def)
  have "BlockTSDF_data example_tsdf_block (9, 1, 0) 1
      = Some (TSDF_stored example_tsdf_block (9, 1, 0)
                (max 1 (tsdf_block.current_scale example_tsdf_block)),
              max 1 (tsdf_block.current_scale example_tsdf_block))"
    using t1 example_tsdf_block_wf s(1) i(1) by blast
  hence a1: "BlockTSDF_data example_tsdf_block (9, 1, 0) 1
      = Some (TSDF_stored example_tsdf_block (9, 1, 0) 1, 1)"
    unfolding cs by simp
  have "BlockTSDF_data example_tsdf_block (9, 1, 0) (- 3)
      = Some (TSDF_stored example_tsdf_block (9, 1, 0)
                (max (- 3) (tsdf_block.current_scale example_tsdf_block)),
              max (- 3) (tsdf_block.current_scale example_tsdf_block))"
    using t2 example_tsdf_block_wf s(2) i(1) by blast
  hence a2: "BlockTSDF_data example_tsdf_block (9, 1, 0) (- 3)
      = Some (TSDF_stored example_tsdf_block (9, 1, 0) 0, 0)"
    unfolding cs by simp
  have "BlockOcc_data example_block_voxels example_heap_voxels (5, 0, 1) 1
      = Some (Occ_stored example_block_voxels example_heap_voxels (5, 0, 1)
                (max 1 (current_scale example_block_voxels)),
              max 1 (current_scale example_block_voxels))"
    using t1 example_block_voxels_wf s(3) i(2) by blast
  hence a3: "BlockOcc_data example_block_voxels example_heap_voxels (5, 0, 1) 1
      = Some (Occ_stored example_block_voxels example_heap_voxels (5, 0, 1) 1, 1)"
    unfolding cs by simp
  have "BlockOcc_data example_block_voxels example_heap_voxels (5, 0, 1) 0
      = Some (Occ_stored example_block_voxels example_heap_voxels (5, 0, 1)
                (max 0 (current_scale example_block_voxels)),
              max 0 (current_scale example_block_voxels))"
    using t2 example_block_voxels_wf s(4) i(2) by blast
  hence a4: "BlockOcc_data example_block_voxels example_heap_voxels (5, 0, 1) 0
      = Some (Occ_stored example_block_voxels example_heap_voxels (5, 0, 1) 0, 0)"
    unfolding cs by simp
  have "BlockOcc_data example_block_unintegrated example_heap_unintegrated (5, 1, 7) 0
      = Some (Occ_stored example_block_unintegrated example_heap_unintegrated (5, 1, 7)
                (max 0 (current_scale example_block_unintegrated)),
              max 0 (current_scale example_block_unintegrated))"
    using t3 example_block_unintegrated_wf s(5) i(3) by blast
  hence a5: "BlockOcc_data example_block_unintegrated example_heap_unintegrated (5, 1, 7) 0
      = Some (Occ_stored example_block_unintegrated example_heap_unintegrated (5, 1, 7) 3, 3)"
    unfolding cs by simp
  show ?thesis
    unfolding a1 a2 a3 a4 a5 d by simp
qed

section \<open>Properties of the octree store\<close>

lemma pow2_table: "map (\<lambda>k. (2::int) ^ k) [0..<31] = [1, 2, 4, 8, 16, 32, 64, 128, 256, 512, 1024, 2048, 4096, 8192, 16384, 32768, 65536, 131072, 262144, 524288, 1048576, 2097152, 4194304, 8388608, 16777216, 33554432, 67108864, 134217728, 268435456, 536870912, 1073741824]"
  by code_simp

lemma is_power_of_two_exp: "is_power_of_two x \<longleftrightarrow> (\<exists>k<31. x = 2 ^ k)"
  unfolding is_power_of_two_def by auto

lemma power_two_up_spec:
  assumes "x \<le> 2 ^ 30"
  shows "\<exists>p. power_two_up x = Some p \<and> is_power_of_two p \<and> x \<le> p
           \<and> (\<forall>q. is_power_of_two q \<and> x \<le> q \<longrightarrow> p \<le> q)"
proof -
  let ?xs = "map (\<lambda>k. (2::int) ^ k) [0..<31]"
  have "(2::int) ^ 30 \<in> set ?xs" by (simp del: upt_Suc) (rule image_eqI [of _ _ 30], simp_all)
  hence "\<exists>p \<in> set ?xs. x \<le> p" using assms by blast
  hence "List.find (\<lambda>p. x \<le> p) ?xs \<noteq> None" unfolding find_None_iff by blast
  then obtain p where p: "List.find (\<lambda>p. x \<le> p) ?xs = Some p" by blast
  then obtain i where i: "i < length ?xs" "x \<le> ?xs ! i" "p = ?xs ! i"
    and least: "\<forall>j<i. \<not> x \<le> ?xs ! j"
    unfolding find_Some_iff by blast
  have i31: "i < 31" using i(1) by simp
  have pi: "p = 2 ^ i" using i(3) i31 by (simp del: upt_Suc)
  have "p \<le> q" if q: "is_power_of_two q \<and> x \<le> q" for q
  proof -
    from q obtain k where k: "k < 31" "q = 2 ^ k" unfolding is_power_of_two_exp by blast
    have "\<not> k < i"
    proof
      assume ki: "k < i"
      have "?xs ! k = 2 ^ k" using k(1) by (simp del: upt_Suc)
      thus False using least ki q k(2) by auto
    qed
    hence "i \<le> k" by simp
    hence "(2::int) ^ i \<le> 2 ^ k" by (rule power_increasing) simp
    thus ?thesis unfolding pi k(2) .
  qed
  moreover have "is_power_of_two p" unfolding is_power_of_two_exp using pi i31 by blast
  moreover have "x \<le> p" using i(2,3) by simp
  ultimately show ?thesis using p unfolding power_two_up_def by blast
qed

lemma power_two_up_fixed:
  assumes "is_power_of_two x"
  shows "power_two_up x = Some x"
proof -
  from assms obtain k where k: "k < 31" "x = 2 ^ k" unfolding is_power_of_two_exp by blast
  have "(2::int) ^ k \<le> 2 ^ 30" using k(1) by (intro power_increasing) simp_all
  from power_two_up_spec [of x] obtain p where p: "power_two_up x = Some p" "is_power_of_two p"
    "x \<le> p" "\<forall>q. is_power_of_two q \<and> x \<le> q \<longrightarrow> p \<le> q"
    using \<open>(2::int) ^ k \<le> 2 ^ 30\<close> k(2) by auto
  have "p \<le> x" using p(4) assms by simp
  thus ?thesis using p(1,3) by simp
qed

lemma pow2_less_double:
  assumes "(2::int) ^ j < 2 ^ k"
  shows "2 * (2::int) ^ j \<le> 2 ^ k"
proof -
  have "j < k" using assms by simp
  hence "Suc j \<le> k" by simp
  hence "(2::int) ^ Suc j \<le> 2 ^ k" by (rule power_increasing) simp
  thus ?thesis by simp
qed

lemma Octree_older_size:
  assumes "is_power_of_two block_size" and "is_power_of_two sz" and "block_size < sz"
  shows "map_option octree_size (Octree_older ndebug block_size sz) = Some sz
       \<and> map_option octree_size (Octree block_size sz) = Some sz"
proof -
  obtain k where k: "k < 31" "sz = 2 ^ k" using assms(2) unfolding is_power_of_two_exp by auto
  obtain j where j: "block_size = 2 ^ j" using assms(1) unfolding is_power_of_two_exp by auto
  have dbl: "2 * block_size \<le> sz" using assms(3) pow2_less_double unfolding j k by simp
  hence mx: "max sz (2 * block_size) = sz" by simp
  have "map_option octree_size (Octree_older ndebug block_size sz) = Some sz"
    unfolding Octree_older_def using assms(2,3) by (simp add: allocateRootNode_def pool_new_def)
  moreover have "map_option octree_size (Octree block_size sz) = Some sz"
    unfolding Octree_def mx power_two_up_fixed [OF assms(2)]
    by (simp add: allocateRootNode_def pool_new_def)
  ultimately show ?thesis by simp
qed

text \<open>
  Claim C8. The constructor sets the side of the octree to the requested size rounded up to
  the next power of two that is at least twice the block size: the side is a power of two, it
  is at least the requested size and at least twice the block size, and no smaller power of
  two is both. This is for a requested size and twice a block size of at most \<open>2 ^ 30\<close>, beyond
  which an \<open>int\<close> holds no such power of two.
\<close>

theorem Octree_size:
  assumes "sz \<le> 2 ^ 30" and "2 * block_size \<le> 2 ^ 30"
  shows "\<exists>oc. Octree block_size sz = Some oc
           \<and> is_power_of_two (octree_size oc)
           \<and> sz \<le> octree_size oc \<and> 2 * block_size \<le> octree_size oc
           \<and> (\<forall>p. is_power_of_two p \<and> sz \<le> p \<and> 2 * block_size \<le> p \<longrightarrow> octree_size oc \<le> p)"
proof -
  have "max sz (2 * block_size) \<le> 2 ^ 30" using assms by simp
  from power_two_up_spec [OF this] obtain p where
    p: "power_two_up (max sz (2 * block_size)) = Some p" "is_power_of_two p"
    "max sz (2 * block_size) \<le> p"
    "\<forall>q. is_power_of_two q \<and> max sz (2 * block_size) \<le> q \<longrightarrow> p \<le> q"
    by blast
  have "\<exists>oc. Octree block_size sz = Some oc \<and> octree_size oc = p"
    unfolding Octree_def p(1) by (simp add: allocateRootNode_def pool_new_def)
  then obtain oc where oc: "Octree block_size sz = Some oc" "octree_size oc = p" by blast
  have "\<forall>q. is_power_of_two q \<and> sz \<le> q \<and> 2 * block_size \<le> q \<longrightarrow> p \<le> q"
    using p(4) by simp
  thus ?thesis using oc p(2,3) by auto
qed

theorem Octree_size_witness:
  "(5::int) \<le> 2 ^ 30 \<and> 2 * (8::int) \<le> 2 ^ 30
   \<and> map_option octree_size (Octree 8 5) = Some 16
   \<and> map_option octree_size (Octree 8 16) = Some 16
   \<and> map_option octree_size (Octree 8 17) = Some 32
   \<and> map_option octree_size (Octree 8 (- 4)) = Some 16"
proof -
  have e: "map_option octree_size (Octree 8 5) = Some 16"
    "map_option octree_size (Octree 8 16) = Some 16"
    "map_option octree_size (Octree 8 17) = Some 32"
    "map_option octree_size (Octree 8 (- 4)) = Some 16"
    by (simp_all add: Octree_def power_two_up_def pow2_table allocateRootNode_def pool_new_def)
  from Octree_size [of 5 8] obtain oc where "Octree 8 5 = Some oc"
    "is_power_of_two (octree_size oc)" "2 * 8 \<le> octree_size oc" by auto
  thus ?thesis using e by simp
qed

lemma parent_node_Some:
  assumes "parent_node oc parent_ptr = Some parent"
  shows "parent_ptr \<noteq> 0" and "octants (pool oc) parent_ptr = Some parent"
    and "parent = PNode (pcoord parent) (psize parent) (pparent parent) (pchildren parent)"
  using assms unfolding parent_node_def
  by (auto split: if_splits option.splits pool_octant.splits)

lemma allocate_existing:
  assumes "parent_node oc parent_ptr = Some parent"
    and "vec_at (pchildren parent) (int child_idx) = Some child_ptr" and "child_ptr \<noteq> 0"
  shows "allocate block_size oc parent_ptr child_idx = Some (child_ptr, oc)"
    and "allocate_flag block_size oc parent_ptr child_idx = Some (False, child_ptr, oc)"
  using assms unfolding allocate_def allocate_flag_def by simp_all

lemma allocate_new_spec:
  assumes wf: "pool_wf (pool oc)"
    and par: "parent_node oc parent_ptr = Some parent"
    and idx: "child_idx < length (pchildren parent)"
  shows "\<exists>oc1 parent1. allocate_new block_size oc parent_ptr parent child_idx = Some (next_addr (pool oc), oc1)
           \<and> parent_node oc1 parent_ptr = Some parent1
           \<and> vec_at (pchildren parent1) (int child_idx) = Some (next_addr (pool oc))
           \<and> next_addr (pool oc1) = Suc (next_addr (pool oc))
           \<and> octants (pool oc1) (next_addr (pool oc)) \<noteq> None
           \<and> (\<forall>a. a \<noteq> parent_ptr \<and> a \<noteq> next_addr (pool oc) \<longrightarrow> octants (pool oc1) a = octants (pool oc) a)
           \<and> pool_wf (pool oc1)"
proof -
  note pn = parent_node_Some[OF par]
  have lt: "parent_ptr < next_addr (pool oc)"
    using wf pn(2) unfolding pool_wf_def by (metis not_le_imp_less option.distinct(1))
  define oct where "oct = (if psize parent = block_size * 2
      then PBlock (vadd (pcoord parent) (child_offset child_idx block_size)) parent_ptr
      else PNode (vadd (pcoord parent) (child_offset child_idx (psize parent div 2)))
                 (psize parent div 2) parent_ptr (replicate 8 0))"
  define parent1 where "parent1 = PNode (pcoord parent) (psize parent) (pparent parent)
      ((pchildren parent)[child_idx := next_addr (pool oc)])"
  define p2 where "p2 = \<lparr>octants = (octants (pool oc))(next_addr (pool oc) \<mapsto> oct, parent_ptr \<mapsto> parent1),
      next_addr = Suc (next_addr (pool oc))\<rparr>"
  have run: "allocate_new block_size oc parent_ptr parent child_idx
      = Some (next_addr (pool oc), oc\<lparr>pool := p2\<rparr>)"
    unfolding allocate_new_def allocateBlock_def allocateNode_def pool_new_def setChild_def
      vec_set_def p2_def parent1_def oct_def
    using idx by simp
  have pn1: "parent_node (oc\<lparr>pool := p2\<rparr>) parent_ptr = Some parent1"
    unfolding parent_node_def p2_def parent1_def using pn(1) by simp
  have ch: "vec_at (pchildren parent1) (int child_idx) = Some (next_addr (pool oc))"
    unfolding vec_at_def parent1_def using idx by simp
  have wf1: "pool_wf (pool (oc\<lparr>pool := p2\<rparr>))"
    using wf lt unfolding pool_wf_def p2_def by auto
  have others: "\<forall>a. a \<noteq> parent_ptr \<and> a \<noteq> next_addr (pool oc)
      \<longrightarrow> octants (pool (oc\<lparr>pool := p2\<rparr>)) a = octants (pool oc) a"
    unfolding p2_def by simp
  have new: "octants (pool (oc\<lparr>pool := p2\<rparr>)) (next_addr (pool oc)) \<noteq> None"
    unfolding p2_def using lt by simp
  have nx: "next_addr (pool (oc\<lparr>pool := p2\<rparr>)) = Suc (next_addr (pool oc))"
    unfolding p2_def by simp
  show ?thesis using run pn1 ch wf1 others new nx by blast
qed

text \<open>
  Claim C6. For a node of the pool as parent and a child index below 8, \<open>allocate\<close> returns a
  non-null child pointer; when the child was already allocated this is the existing pointer
  and the octree is unchanged. A second call for the same parent and index, with either
  overload, returns the same pointer, allocates nothing and leaves the octree as the first
  call left it.
\<close>

theorem allocate_idempotent:
  assumes wf: "pool_wf (pool oc)"
    and par: "parent_node oc parent_ptr = Some parent"
    and len: "length (pchildren parent) = 8" and idx: "child_idx < 8"
  shows "\<exists>child_ptr oc1.
           allocate block_size oc parent_ptr child_idx = Some (child_ptr, oc1)
         \<and> child_ptr \<noteq> 0
         \<and> (vec_at (pchildren parent) (int child_idx) \<noteq> Some 0
              \<longrightarrow> vec_at (pchildren parent) (int child_idx) = Some child_ptr \<and> oc1 = oc)
         \<and> allocate block_size oc1 parent_ptr child_idx = Some (child_ptr, oc1)
         \<and> allocate_flag block_size oc1 parent_ptr child_idx = Some (False, child_ptr, oc1)"
proof -
  have idx': "child_idx < length (pchildren parent)" using len idx by simp
  obtain c where c: "vec_at (pchildren parent) (int child_idx) = Some c"
    unfolding vec_at_def using idx' by simp
  show ?thesis
  proof (cases "c = 0")
    case False
    show ?thesis using allocate_existing[OF par c False] c False by auto
  next
    case True
    obtain oc1 parent1 where
      run: "allocate_new block_size oc parent_ptr parent child_idx = Some (next_addr (pool oc), oc1)"
      and pn1: "parent_node oc1 parent_ptr = Some parent1"
      and ch: "vec_at (pchildren parent1) (int child_idx) = Some (next_addr (pool oc))"
      using allocate_new_spec[OF wf par idx'] by blast
    have nz: "next_addr (pool oc) \<noteq> 0" using wf unfolding pool_wf_def by simp
    have first: "allocate block_size oc parent_ptr child_idx = Some (next_addr (pool oc), oc1)"
      unfolding allocate_def using par c True run by simp
    show ?thesis using first nz allocate_existing[OF pn1 ch nz] c True by auto
  qed
qed

theorem allocate_idempotent_witness:
  "pool_wf (pool example_octree)
   \<and> parent_node example_octree 1 = Some (PNode (0, 0, 0) 16 0 (replicate 8 0))
   \<and> (\<exists>child_ptr oc1. allocate 8 example_octree 1 3 = Some (child_ptr, oc1) \<and> child_ptr \<noteq> 0
          \<and> allocate 8 oc1 1 3 = Some (child_ptr, oc1)
          \<and> allocate_flag 8 oc1 1 3 = Some (False, child_ptr, oc1))"
  using allocate_idempotent [of example_octree 1 "PNode (0, 0, 0) 16 0 (replicate 8 0)" 3 8]
  by (auto simp: example_octree_def pool_wf_def parent_node_def)

section \<open>Properties of the propagation to the root\<close>

lemma child_step_Some:
  "ndebug \<or> flags_agree (Some child) \<Longrightarrow> \<exists>a'. child_step ndebug get_field child a = Some a'"
  unfolding child_step_def flags_agree_def by (simp add: Let_def)

lemma child_step_observed_count:
  "child_step ndebug get_field child a = Some a' \<Longrightarrow>
   observed_count a' = observed_count a + (if child_observed (Some child) then 1 else 0)"
  unfolding child_step_def child_observed_def by (auto simp: Let_def split: if_splits)

lemma child_step_max:
  "child_step ndebug get_field child a = Some a' \<Longrightarrow>
   (if child_weighted_above get_field (max_occupancy a) (Some child)
    then max_data_count a' = max_data_count a + 1 \<and> max_occupancy a' > max_occupancy a
    else max_data_count a' = max_data_count a \<and> max_occupancy a' = max_occupancy a)"
  unfolding child_step_def child_weighted_above_def by (auto simp: Let_def split: if_splits)

lemma child_step_min:
  "child_step ndebug get_field child a = Some a' \<Longrightarrow>
   (if child_weighted_below get_field (min_occupancy a) (Some child)
    then min_data_count a' = min_data_count a + 1 \<and> min_occupancy a' < min_occupancy a
    else min_data_count a' = min_data_count a \<and> min_occupancy a' = min_occupancy a)"
  unfolding child_step_def child_weighted_below_def by (auto simp: Let_def split: if_splits)

lemma children_loop_Some:
  "ndebug \<or> list_all flags_agree cs \<Longrightarrow> \<exists>a'. children_loop ndebug get_field cs a = Some a'"
proof (induction cs arbitrary: a)
  case Nil
  show ?case by simp
next
  case (Cons c cs)
  show ?case
  proof (cases c)
    case None
    thus ?thesis using Cons by auto
  next
    case (Some child)
    have "ndebug \<or> flags_agree (Some child)" using Cons.prems Some by auto
    then obtain a1 where a1: "child_step ndebug get_field child a = Some a1"
      using child_step_Some by blast
    have "ndebug \<or> list_all flags_agree cs" using Cons.prems by auto
    from Cons.IH[OF this, of a1] show ?thesis using Some a1 by simp
  qed
qed

lemma children_loop_observed_count:
  "children_loop ndebug get_field cs a = Some a' \<Longrightarrow>
   observed_count a' = observed_count a + int (length (filter child_observed cs))"
proof (induction cs arbitrary: a)
  case Nil
  thus ?case by simp
next
  case (Cons c cs)
  show ?case
  proof (cases c)
    case None
    thus ?thesis using Cons by (simp add: child_observed_def)
  next
    case (Some child)
    then obtain a1 where a1: "child_step ndebug get_field child a = Some a1"
      and rest: "children_loop ndebug get_field cs a1 = Some a'"
      using Cons.prems by (auto split: bind_splits)
    show ?thesis
      using Cons.IH[OF rest] child_step_observed_count[OF a1] Some by simp
  qed
qed

lemma children_loop_max:
  "children_loop ndebug get_field cs a = Some a' \<Longrightarrow>
   max_data_count a \<le> max_data_count a' \<and> max_occupancy a \<le> max_occupancy a'
   \<and> (max_data_count a < max_data_count a'
        \<longleftrightarrow> list_ex (child_weighted_above get_field (max_occupancy a)) cs)"
proof (induction cs arbitrary: a)
  case Nil
  thus ?case by simp
next
  case (Cons c cs)
  show ?case
  proof (cases c)
    case None
    thus ?thesis using Cons by (simp add: child_weighted_above_def)
  next
    case (Some child)
    then obtain a1 where a1: "child_step ndebug get_field child a = Some a1"
      and rest: "children_loop ndebug get_field cs a1 = Some a'"
      using Cons.prems by (auto split: bind_splits)
    note ih = Cons.IH[OF rest]
    note st = child_step_max[OF a1]
    show ?thesis
    proof (cases "child_weighted_above get_field (max_occupancy a) (Some child)")
      case True
      thus ?thesis using ih st Some by auto
    next
      case False
      hence eq: "max_data_count a1 = max_data_count a" "max_occupancy a1 = max_occupancy a"
        using st by auto
      show ?thesis using ih False Some unfolding eq by simp
    qed
  qed
qed

lemma children_loop_min:
  "children_loop ndebug get_field cs a = Some a' \<Longrightarrow>
   min_data_count a \<le> min_data_count a' \<and> min_occupancy a' \<le> min_occupancy a
   \<and> (min_data_count a < min_data_count a'
        \<longleftrightarrow> list_ex (child_weighted_below get_field (min_occupancy a)) cs)"
proof (induction cs arbitrary: a)
  case Nil
  thus ?case by simp
next
  case (Cons c cs)
  show ?case
  proof (cases c)
    case None
    thus ?thesis using Cons by (simp add: child_weighted_below_def)
  next
    case (Some child)
    then obtain a1 where a1: "child_step ndebug get_field child a = Some a1"
      and rest: "children_loop ndebug get_field cs a1 = Some a'"
      using Cons.prems by (auto split: bind_splits)
    note ih = Cons.IH[OF rest]
    note st = child_step_min[OF a1]
    show ?thesis
    proof (cases "child_weighted_below get_field (min_occupancy a) (Some child)")
      case True
      thus ?thesis using ih st Some by auto
    next
      case False
      hence eq: "min_data_count a1 = min_data_count a" "min_occupancy a1 = min_occupancy a"
        using st by auto
      show ?thesis using ih False Some unfolding eq by simp
    qed
  qed
qed

lemma filter_all_length: "length (filter P xs) = length xs \<longleftrightarrow> list_all P xs"
proof (induction xs)
  case Nil
  show ?case by simp
next
  case (Cons x xs)
  have "length (filter P xs) \<noteq> Suc (length xs)"
    using length_filter_le[of P xs] by linarith
  thus ?case using Cons by auto
qed

lemma propagate_to_parent_node_run:
  assumes len: "length cs = 8" and loop: "children_loop ndebug get_field cs aggregate_init = Some a"
  shows "propagate_to_parent_node ndebug get_field (Node t mn mx cs) ts =
     Some (Node ts
       (if min_data_count a > 0
        then \<lparr>occupancy = min_mean_occupancy a, weight = min_weight a,
              observed = (observed_count a = 8 \<or> observed mn)\<rparr>
        else mn)
       (if max_data_count a > 0
        then \<lparr>occupancy = max_mean_occupancy a, weight = max_weight_acc a,
              observed = (observed_count a = 8 \<or> observed mx)\<rparr>
        else mx) cs,
       (if max_data_count a > 0
        then \<lparr>occupancy = max_mean_occupancy a, weight = max_weight_acc a,
              observed = (observed_count a = 8 \<or> observed mx)\<rparr>
        else mx))"
  unfolding propagate_to_parent_node_def using len loop
  by (cases mn; cases mx) (simp add: Let_def)

text \<open>
  Claim C5. \<open>propagate_to_parent_node\<close> returns for every node with eight child pointers (in a
  debug build: whose children have equal observed flags in their minimum and maximum data).
  The observed flag of the node's maximum data is then true exactly when it was true before,
  or all eight children are allocated and observed and one of them has a positive weight and
  a field value above the lowest \<open>float\<close>; the same holds for the minimum data, with a field
  value below the largest \<open>float\<close>. A null child counts as unobserved, and the flag is never
  reset.
\<close>

theorem propagate_to_parent_node_observed:
  assumes len: "length cs = 8" and agree: "ndebug \<or> list_all flags_agree cs"
  shows "\<exists>node'. propagate_to_parent_node ndebug get_field (Node t mn mx cs) ts
                    = Some (node', max_data node')
           \<and> children node' = cs \<and> timestamp node' = ts
           \<and> observed (max_data node')
               = (observed mx \<or> (list_ex (child_weighted_above get_field field_lowest) cs
                                  \<and> list_all child_observed cs))
           \<and> observed (min_data node')
               = (observed mn \<or> (list_ex (child_weighted_below get_field field_max) cs
                                  \<and> list_all child_observed cs))"
proof -
  obtain a where loop: "children_loop ndebug get_field cs aggregate_init = Some a"
    using children_loop_Some[OF agree] by blast
  have cnt: "observed_count a = int (length (filter child_observed cs))"
    using children_loop_observed_count[OF loop] by (simp add: aggregate_init_def)
  have all: "observed_count a = 8 \<longleftrightarrow> list_all child_observed cs"
    unfolding cnt using filter_all_length[of child_observed cs] len by simp
  have mx: "0 < max_data_count a \<longleftrightarrow> list_ex (child_weighted_above get_field field_lowest) cs"
    using children_loop_max[OF loop] by (simp add: aggregate_init_def)
  have mn: "0 < min_data_count a \<longleftrightarrow> list_ex (child_weighted_below get_field field_max) cs"
    using children_loop_min[OF loop] by (simp add: aggregate_init_def)
  show ?thesis
    unfolding propagate_to_parent_node_run[OF len loop] using all mx mn by auto
qed

theorem propagate_to_parent_node_observed_witness:
  "length (replicate 8 (Some example_free_block)) = 8
   \<and> list_all flags_agree (replicate 8 (Some example_free_block))
   \<and> (\<exists>node'. propagate_to_parent_node False example_get_field example_full_node 1
                  = Some (node', max_data node')
         \<and> observed (max_data node') \<and> observed (min_data node'))"
  using propagate_to_parent_node_observed [of "replicate 8 (Some example_free_block)" False
      example_get_field 0 example_init_data example_init_data 1]
  by (auto simp: example_full_node_def list_all_iff list_ex_iff flags_agree_def child_observed_def
      child_weighted_above_def child_weighted_below_def example_free_block_def child_max_data_def
      child_min_data_def example_free_data_def example_get_field_def field_lowest_def field_max_def)

theorem sparse_node_stays_unobserved:
  "every_nonnull_child_observed example_sparse_node
   \<and> map_option (observed \<circ> snd)
        (propagate_to_parent_node False example_get_field example_sparse_node 1) = Some False
   \<and> map_option (weight \<circ> snd)
        (propagate_to_parent_node False example_get_field example_sparse_node 1) = Some 20"
  by (simp add: every_nonnull_child_observed_def example_sparse_node_def propagate_to_parent_node_def
      aggregate_init_def child_step_def Let_def example_free_block_def child_max_data_def
      child_min_data_def example_free_data_def example_get_field_def field_lowest_def field_max_def
      example_init_data_def eval_nat_numeral)




























section \<open>Queries of unallocated regions\<close>

lemma maxData_below_finest:
  assumes "0 \<le> scale" and "scale < max_scale b - (int (length (block_data b)) - 1)"
    and "max_scale b < 2 ^ 31"
  shows "BlockOcc_maxData_at_scale b h voxel_coord scale = Some (init_data b)"
proof -
  define finest where "finest = max_scale b - (int (length (block_data b)) - 1)"
  have "0 \<le> finest" "finest \<le> max_scale b + 1" using assms(1,2) unfolding finest_def by auto
  hence "0 \<le> finest" "finest < 2 ^ 64" "0 \<le> scale" "scale < 2 ^ 64"
    using assms unfolding finest_def by auto
  hence "size_t_of finest = finest" "size_t_of scale = scale"
    by (simp_all add: size_t_of_def)
  thus ?thesis
    using assms(2) unfolding BlockOcc_maxData_at_scale_def finest_def by simp
qed

text \<open>
  Claim C9. In every occupancy block, \<open>maxData(voxel_coord, scale)\<close> at a scale finer than the
  finest allocated one, \<open>max_scale - (block_data_.size() - 1)\<close>, returns the initial data of
  the block; this holds for a block that was never integrated, whose \<open>min_scale\<close> is \<open>-1\<close>. Where
  no block holds the voxel, \<open>getData\<close> returns the initial data and \<open>getField\<close> returns nothing.
\<close>

theorem unallocated_queries:
  assumes "0 \<le> scale" and "scale < max_scale b - (int (length (block_data b)) - 1)"
    and "max_scale b < 2 ^ 31"
    and "fetch_block query_coord = None"
  shows "BlockOcc_maxData_at_scale b h voxel_coord scale = Some (init_data b)
       \<and> getData fetch_block voxel_data init query_coord = init
       \<and> getField fetch_block voxel_data is_valid get_field query_coord = None"
  using maxData_below_finest [OF assms(1-3)] assms(4)
  by (simp add: getData_def getField_def)

theorem unallocated_queries_witness:
  "min_scale example_block_unintegrated = - 1
   \<and> BlockOcc_maxData_at_scale example_block_unintegrated example_heap_unintegrated (5, 1, 7) 2
       = Some (init_data example_block_unintegrated)
   \<and> BlockOcc_maxData_at_scale example_block example_heap (1, 1, 1) 0
       = Some (init_data example_block)
   \<and> getData (Map.empty :: vec3i \<Rightarrow> occ_block option) (\<lambda>block voxel_coord. init_data block)
        DataType_init (1, 1, 1) = DataType_init
   \<and> getField (Map.empty :: vec3i \<Rightarrow> occ_block option) (\<lambda>block voxel_coord. init_data block)
        observed occupancy (1, 1, 1) = None"
  using unallocated_queries [of 2 example_block_unintegrated
      "Map.empty :: vec3i \<Rightarrow> occ_block option" "(1, 1, 1)"
      example_heap_unintegrated "(5, 1, 7)" "\<lambda>block voxel_coord. init_data block" DataType_init observed occupancy]
    unallocated_queries [of 0 example_block
      "Map.empty :: vec3i \<Rightarrow> occ_block option" "(1, 1, 1)"
      example_heap "(1, 1, 1)" "\<lambda>block voxel_coord. init_data block" DataType_init observed occupancy]
  by (simp add: example_block_def example_block_unintegrated_def)

end
